theory Spec2Isabelle
  imports Complex_Main "HOL-Library.Sublist"
begin

section \<open>Strings as Python sees them\<close>

text \<open>
  A Python \<open>str\<close> is modelled as a \<open>string\<close> (a list of \<open>char\<close>); every character is read
  as the code point of the same number, so the model covers the code points below 256.
\<close>

definition is_space :: "char \<Rightarrow> bool" where
  \<comment> \<open>\<open>str.isspace\<close> and the regular expression class \<open>\s\<close> on code points below 256\<close>
  "is_space c \<longleftrightarrow>
     (let n = (of_char c :: nat)
      in (9 \<le> n \<and> n \<le> 13) \<or> (28 \<le> n \<and> n \<le> 32) \<or> n = 133 \<or> n = 160)"

definition lower_char :: "char \<Rightarrow> char" where
  \<comment> \<open>\<open>str.lower\<close> on one code point below 256\<close>
  "lower_char c =
     (let n = (of_char c :: nat)
      in if (65 \<le> n \<and> n \<le> 90) \<or> (192 \<le> n \<and> n \<le> 222 \<and> n \<noteq> 215)
         then char_of (n + 32) else c)"

definition lower :: "string \<Rightarrow> string" where
  "lower s = map lower_char s"

definition endswith :: "string \<Rightarrow> string \<Rightarrow> bool" where
  \<comment> \<open>\<open>s.endswith(suf)\<close>\<close>
  "endswith s suf \<longleftrightarrow>
     length suf \<le> length s \<and> drop (length s - length suf) s = suf"

definition lstrip_by :: "(char \<Rightarrow> bool) \<Rightarrow> string \<Rightarrow> string" where
  "lstrip_by P s = dropWhile P s"

definition rstrip_by :: "(char \<Rightarrow> bool) \<Rightarrow> string \<Rightarrow> string" where
  "rstrip_by P s = rev (dropWhile P (rev s))"

definition strip :: "string \<Rightarrow> string" where
  \<comment> \<open>\<open>s.strip()\<close>\<close>
  "strip s = rstrip_by is_space (lstrip_by is_space s)"

fun find_from :: "char \<Rightarrow> nat \<Rightarrow> string \<Rightarrow> nat option" where
  "find_from c i [] = None"
| "find_from c i (x # xs) = (if x = c then Some i else find_from c (Suc i) xs)"

definition find_char :: "char \<Rightarrow> string \<Rightarrow> nat option" where
  \<comment> \<open>\<open>s.find(c)\<close>, with \<open>None\<close> for Python's \<open>-1\<close>\<close>
  "find_char c s = find_from c 0 s"

fun rfind_from :: "char \<Rightarrow> nat \<Rightarrow> string \<Rightarrow> nat option" where
  "rfind_from c i [] = None"
| "rfind_from c i (x # xs) =
     (case rfind_from c (Suc i) xs of
        Some j \<Rightarrow> Some j
      | None \<Rightarrow> (if x = c then Some i else None))"

definition rfind_char :: "char \<Rightarrow> string \<Rightarrow> nat option" where
  \<comment> \<open>\<open>s.rfind(c)\<close>, with \<open>None\<close> for Python's \<open>-1\<close>\<close>
  "rfind_char c s = rfind_from c 0 s"

section \<open>Constants of the program\<close>

definition MAX_TEXT_CHARS :: nat where
  "MAX_TEXT_CHARS = 4000"

definition TOSORT :: string where
  \<comment> \<open>the literal \<open>"_ToSort"\<close> that the code uses as the fallback folder\<close>
  "TOSORT = ''_ToSort''"

definition ALLOWED_FOLDERS :: "string list" where
  "ALLOWED_FOLDERS =
     [''Finance/Invoices/2024'', ''Finance/Invoices/2025'', ''Finance/Taxes'',
      ''Finance/Contracts'', ''Work/IT'', ''Work/Docs'', ''Work/Clients'', ''Dev/Docs'',
      ''Dev/Assets'', ''Dev/Tools'', ''Design/AI'', ''Design/PSD'', ''Design/SVG'',
      ''Media/Images'', ''Media/Screenshots'', ''Installers'', ''_ToSort'']"

section \<open>\<open>safe_filename\<close>\<close>

definition forbidden :: "char \<Rightarrow> bool" where
  \<comment> \<open>the character class \<open>[<>:"/\\|?*\x00-\x1F]\<close>\<close>
  "forbidden c \<longleftrightarrow>
     c \<in> set [CHR ''<'', CHR ''>'', CHR '':'', CHR 0x22, CHR ''/'', CHR 0x5C,
               CHR ''|'', CHR ''?'', CHR ''*'']
     \<or> (of_char c :: nat) < 32"

definition replace_forbidden :: "string \<Rightarrow> string" where
  "replace_forbidden s = map (\<lambda>c. if forbidden c then CHR ''_'' else c) s"

fun collapse_ws :: "string \<Rightarrow> string" where
  \<comment> \<open>\<open>re.sub(r"\s+", " ", s)\<close>: every maximal run of whitespace becomes one space\<close>
  "collapse_ws [] = []"
| "collapse_ws [c] = [if is_space c then CHR '' '' else c]"
| "collapse_ws (c # d # cs) =
     (if is_space c
      then (if is_space d then collapse_ws (d # cs) else CHR '' '' # collapse_ws (d # cs))
      else c # collapse_ws (d # cs))"

definition dot_or_space :: "char \<Rightarrow> bool" where
  "dot_or_space c \<longleftrightarrow> c = CHR '' '' \<or> c = CHR ''.''"

definition safe_filename :: "string \<Rightarrow> string" where
  "safe_filename name =
     (let name1 = replace_forbidden name;
          name2 = strip (collapse_ws name1);
          name3 = rstrip_by dot_or_space name2
      in if length name3 > 180 then take 180 name3 else name3)"

definition path_stem :: "string \<Rightarrow> string" where
  \<comment> \<open>\<open>Path(name).stem\<close> for a name without a path separator: the part before the last
      dot, unless that dot is the first or the last character\<close>
  "path_stem name =
     (case rfind_char (CHR ''.'') name of
        None \<Rightarrow> name
      | Some i \<Rightarrow> (if 0 < i \<and> i + 1 < length name then take i name else name))"


section \<open>JSON values and Python floats\<close>

datatype pyfloat = Finite real | PosInf | NegInf | NaN

fun pf_less :: "pyfloat \<Rightarrow> pyfloat \<Rightarrow> bool" where
  \<comment> \<open>\<open>a < b\<close> on floats: every comparison with NaN is false\<close>
  "pf_less NaN _ = False"
| "pf_less _ NaN = False"
| "pf_less (Finite a) (Finite b) = (a < b)"
| "pf_less (Finite a) PosInf = True"
| "pf_less (Finite a) NegInf = False"
| "pf_less PosInf _ = False"
| "pf_less NegInf (Finite b) = True"
| "pf_less NegInf PosInf = True"
| "pf_less NegInf NegInf = False"

definition pf_ge :: "pyfloat \<Rightarrow> pyfloat \<Rightarrow> bool" where
  \<comment> \<open>\<open>a >= b\<close> on floats\<close>
  "pf_ge a b \<longleftrightarrow> a \<noteq> NaN \<and> b \<noteq> NaN \<and> \<not> pf_less a b"

definition py_min :: "pyfloat \<Rightarrow> pyfloat \<Rightarrow> pyfloat" where
  \<comment> \<open>the builtin \<open>min(a, b)\<close>: \<open>b\<close> only when \<open>b < a\<close>\<close>
  "py_min a b = (if pf_less b a then b else a)"

definition py_max :: "pyfloat \<Rightarrow> pyfloat \<Rightarrow> pyfloat" where
  \<comment> \<open>the builtin \<open>max(a, b)\<close>: \<open>b\<close> only when \<open>b > a\<close>\<close>
  "py_max a b = (if pf_less a b then b else a)"

datatype json =
    JNull
  | JBool bool
  | JInt int
  | JFloat pyfloat
  | JStr string
  | JArr "json list"
  | JObj "(string \<times> json) list"

datatype error =
    RequestError      \<comment> \<open>\<open>requests.post\<close>, \<open>raise_for_status\<close> or \<open>r.json()\<close> raised\<close>
  | TypeError
  | AttributeError
  | ValueError
  | OSError
  | Interrupt         \<comment> \<open>an exception that is not an \<open>Exception\<close>, such as \<open>KeyboardInterrupt\<close>\<close>

text \<open>
  The standard-library functions whose results depend on text formats are parameters of
  the model: \<open>json_loads\<close> is \<open>json.loads\<close> (\<open>None\<close> when it raises), \<open>str_to_float\<close> is
  \<open>float\<close> on a \<open>str\<close> (\<open>None\<close> for \<open>ValueError\<close>), \<open>int_to_float\<close> is \<open>float\<close> on an
  \<open>int\<close> (\<open>None\<close> for \<open>OverflowError\<close>), \<open>py_str\<close> is \<open>str\<close> on a value that is not a
  \<open>str\<close>.
\<close>

record pylib =
  json_loads :: "string \<Rightarrow> json option"
  str_to_float :: "string \<Rightarrow> pyfloat option"
  int_to_float :: "int \<Rightarrow> pyfloat option"
  py_str :: "json \<Rightarrow> string"

definition py_float :: "pylib \<Rightarrow> json \<Rightarrow> pyfloat option" where
  \<comment> \<open>the builtin \<open>float(v)\<close>; \<open>None\<close> when it raises\<close>
  "py_float L v =
     (case v of
        JFloat x \<Rightarrow> Some x
      | JInt i \<Rightarrow> int_to_float L i
      | JBool b \<Rightarrow> Some (Finite (if b then 1 else 0))
      | JStr s \<Rightarrow> str_to_float L s
      | _ \<Rightarrow> None)"

definition dict_get :: "(string \<times> json) list \<Rightarrow> string \<Rightarrow> json option" where
  "dict_get kvs k = map_of kvs k"

section \<open>Previews and suggestions\<close>

text \<open>
  The preview dictionary that \<open>extract_preview\<close> builds: \<open>kind\<close>, \<open>text\<close> and \<open>notes\<close> are
  always present, \<open>size\<close>, \<open>mtime\<close> and \<open>hash\<close> only when they were obtained.
\<close>

record preview_info =
  pv_kind :: string
  pv_text :: string
  pv_notes :: string
  pv_size :: "nat option"
  pv_mtime :: "string option"
  pv_hash :: "string option"

record suggestion =
  suggested_name :: string
  suggested_folder :: string
  confidence :: pyfloat
  reason :: string

text \<open>
  The Advisor is the HTTP call of \<open>ollama_suggest\<close>: given the fields of the request
  (original filename, extension, kind, content preview, allowed folders) it either raises
  (\<open>Inl\<close>: connection error, timeout, HTTP error status, body that is not JSON) or gives
  the \<open>response\<close> text of the reply.
\<close>

type_synonym advisor =
  "string \<Rightarrow> string \<Rightarrow> string \<Rightarrow> string \<Rightarrow> string list \<Rightarrow> error + string"

definition fallback_suggestion :: "string \<Rightarrow> string \<Rightarrow> suggestion" where
  "fallback_suggestion filename why =
     \<lparr>suggested_name = filename, suggested_folder = TOSORT,
      confidence = Finite 0, reason = why\<rparr>"

definition normalize_name :: "string \<Rightarrow> string \<Rightarrow> string" where
  "normalize_name raw ext =
     (let sug_name = safe_filename raw
      in if \<not> endswith (lower sug_name) (lower ext)
         then safe_filename (path_stem sug_name @ ext)
         else sug_name)"

definition normalize_folder :: "json option \<Rightarrow> string list \<Rightarrow> string" where
  \<comment> \<open>\<open>obj.get("suggested_folder", "_ToSort")\<close>, then the membership test\<close>
  "normalize_folder v allowed_folders =
     (case v of
        None \<Rightarrow> TOSORT
      | Some (JStr folder) \<Rightarrow> (if folder \<notin> set allowed_folders then TOSORT else folder)
      | Some _ \<Rightarrow> TOSORT)"

definition normalize_confidence :: "pylib \<Rightarrow> json option \<Rightarrow> pyfloat" where
  \<comment> \<open>\<open>obj.get("confidence", 0.0)\<close>, \<open>float\<close> under \<open>try\<close>, then the clamp\<close>
  "normalize_confidence L v =
     (let conf = (case v of None \<Rightarrow> Some (Finite 0) | Some j \<Rightarrow> py_float L j);
          conf1 = (case conf of None \<Rightarrow> Finite 0 | Some x \<Rightarrow> x)
      in py_max (Finite 0) (py_min (Finite 1) conf1))"

definition normalize_reason :: "pylib \<Rightarrow> json option \<Rightarrow> string" where
  \<comment> \<open>\<open>str(obj.get("reason", "")).strip()[:300]\<close>\<close>
  "normalize_reason L v =
     take 300 (strip (case v of None \<Rightarrow> [] | Some (JStr s) \<Rightarrow> s | Some j \<Rightarrow> py_str L j))"

definition normalize_reply :: "pylib \<Rightarrow> string \<Rightarrow> string \<Rightarrow> string list \<Rightarrow> json \<Rightarrow> error + suggestion" where
  \<comment> \<open>the part of \<open>ollama_suggest\<close> after \<open>json.loads\<close>; \<open>safe_filename\<close> raises
      \<open>TypeError\<close> on a name that is not a \<open>str\<close>, \<open>obj.get\<close> raises \<open>AttributeError\<close> on
      a value that is not a dictionary\<close>
  "normalize_reply L filename ext allowed_folders obj =
     (case obj of
        JObj kvs \<Rightarrow>
          (case (case dict_get kvs ''suggested_name'' of
                   None \<Rightarrow> Some filename
                 | Some (JStr s) \<Rightarrow> Some s
                 | Some _ \<Rightarrow> None) of
             None \<Rightarrow> Inl TypeError
           | Some raw \<Rightarrow>
               Inr \<lparr>suggested_name = normalize_name raw ext,
                    suggested_folder =
                      normalize_folder (dict_get kvs ''suggested_folder'') allowed_folders,
                    confidence = normalize_confidence L (dict_get kvs ''confidence''),
                    reason = normalize_reason L (dict_get kvs ''reason'')\<rparr>)
      | _ \<Rightarrow> Inl AttributeError)"

definition ollama_suggest ::
  "pylib \<Rightarrow> advisor \<Rightarrow> string \<Rightarrow> string \<Rightarrow> preview_info \<Rightarrow> string list \<Rightarrow> error + suggestion" where
  "ollama_suggest L adv filename ext preview allowed_folders =
     (case adv filename ext (pv_kind preview) (take MAX_TEXT_CHARS (pv_text preview))
             allowed_folders of
        Inl e \<Rightarrow> Inl e
      | Inr response \<Rightarrow>
          (let out = strip response
           in case (find_char (CHR 0x7B) out, rfind_char (CHR 0x7D) out) of
                (Some start, Some end') \<Rightarrow>
                  (if end' \<le> start
                   then Inr (fallback_suggestion filename ''Model did not return JSON.'')
                   else (case json_loads L (take (end' + 1 - start) (drop start out)) of
                           None \<Rightarrow>
                             Inr (fallback_suggestion filename ''Could not parse model JSON.'')
                         | Some obj \<Rightarrow> normalize_reply L filename ext allowed_folders obj))
              | _ \<Rightarrow> Inr (fallback_suggestion filename ''Model did not return JSON.'')))"

section \<open>The registry\<close>

datatype status = Candidate | Never | Done

record item =
  rel :: string
  name :: string
  ext :: string
  fsize :: nat
  mtime :: string
  status :: status
  approved :: bool
  preview :: "preview_info option"
  suggestion :: "suggestion option"
  edited_name :: string
  edited_folder :: string
  done_dest :: "string option"

text \<open>
  The \<open>items\<close> dictionary keeps insertion order, and the loops of the program run over it
  in that order: it is an association list from relative path to item.
\<close>

type_synonym items = "(string \<times> item) list"

record state =
  root :: string
  mode :: string
  items :: items
  allowed_folders :: "string list"

section \<open>The file system\<close>

text \<open>
  A path below the root is the list of its components; \<open>path_parts\<close> reads a string with
  \<open>/\<close> separators the way \<open>pathlib\<close> does (empty components and \<open>.\<close> are dropped). The
  model takes every component literally: it has no \<open>..\<close>, no absolute second operand of
  \<open>/\<close> and no symbolic links. A file carries its content; metadata is not modelled.
\<close>

type_synonym path = "string list"

datatype node = File string | Dir

type_synonym fs = "path \<Rightarrow> node option"

fun split_slash :: "string \<Rightarrow> string list" where
  "split_slash [] = [[]]"
| "split_slash (c # cs) =
     (if c = CHR ''/'' then [] # split_slash cs
      else (case split_slash cs of
              [] \<Rightarrow> [[c]]
            | p # ps \<Rightarrow> (c # p) # ps))"

definition path_parts :: "string \<Rightarrow> path" where
  "path_parts s = filter (\<lambda>c. c \<noteq> [] \<and> c \<noteq> ''.'') (split_slash s)"

definition path_str :: "string \<Rightarrow> path \<Rightarrow> string" where
  \<comment> \<open>\<open>str(root / p)\<close>\<close>
  "path_str r p = foldl (\<lambda>acc c. acc @ ''/'' @ c) r p"

fun mkdirs :: "fs \<Rightarrow> path list \<Rightarrow> error + fs" where
  "mkdirs f [] = Inr f"
| "mkdirs f (p # ps) =
     (case f p of
        None \<Rightarrow> mkdirs (f(p \<mapsto> Dir)) ps
      | Some Dir \<Rightarrow> mkdirs f ps
      | Some (File c) \<Rightarrow> Inl OSError)"

definition mkdir_parents :: "fs \<Rightarrow> path \<Rightarrow> error + fs" where
  \<comment> \<open>\<open>d.mkdir(parents=True, exist_ok=True)\<close>: every missing ancestor and \<open>d\<close> itself are
      created; a file in the place of one of them raises\<close>
  "mkdir_parents f d = mkdirs f (prefixes d)"

text \<open>
  \<open>os_fault src dest\<close> stands for a failure of the operating system that the tree does
  not explain (permissions, a locked file, a full disk): \<open>Some msg\<close> makes the call raise
  an exception with that text. A call that raises leaves the tree as it was.
\<close>

type_synonym os_fault = "path \<Rightarrow> path \<Rightarrow> string option"

definition copy2 :: "os_fault \<Rightarrow> fs \<Rightarrow> path \<Rightarrow> path \<Rightarrow> string + fs" where
  \<comment> \<open>\<open>shutil.copy2(src, dest)\<close> onto a path that does not exist\<close>
  "copy2 flt f src dest =
     (case flt src dest of
        Some msg \<Rightarrow> Inl msg
      | None \<Rightarrow>
          (case f src of
             None \<Rightarrow> Inl ''FileNotFoundError''
           | Some Dir \<Rightarrow> Inl ''IsADirectoryError''
           | Some (File c) \<Rightarrow>
               (if dest \<noteq> [] \<and> f (butlast dest) = Some Dir
                then Inr (f(dest \<mapsto> File c))
                else Inl ''FileNotFoundError'')))"

definition move :: "os_fault \<Rightarrow> fs \<Rightarrow> path \<Rightarrow> path \<Rightarrow> string + fs" where
  \<comment> \<open>\<open>shutil.move(src, dest)\<close> onto a path that does not exist: a rename; a directory
      moves with everything below it, and not into itself\<close>
  "move flt f src dest =
     (case flt src dest of
        Some msg \<Rightarrow> Inl msg
      | None \<Rightarrow>
          (case f src of
             None \<Rightarrow> Inl ''FileNotFoundError''
           | Some n \<Rightarrow>
               (if dest = [] \<or> f (butlast dest) \<noteq> Some Dir then Inl ''FileNotFoundError''
                else if prefix src dest then Inl ''Error''
                else Inr (\<lambda>p. if prefix dest p then f (src @ drop (length dest) p)
                              else if prefix src p then None
                              else f p))))"

section \<open>\<open>extract_preview\<close>\<close>

text \<open>
  Reading and decoding files is the work of the operating system and of third-party
  decoders; each such call is a parameter that either gives its value or raises.
  \<open>except Exception\<close> catches \<open>Exc msg\<close> (an instance of \<open>Exception\<close>, with \<open>msg\<close> its
  text); \<open>BaseExc\<close> is an exception outside that class, which no handler of the program
  catches.
\<close>

datatype failure = Exc string | BaseExc

record env =
  e_stat :: "path \<Rightarrow> failure + nat \<times> nat"
    \<comment> \<open>\<open>path.stat()\<close>: size and modification time\<close>
  e_isotime :: "nat \<Rightarrow> failure + string"
    \<comment> \<open>\<open>datetime.fromtimestamp(t).isoformat(timespec="seconds")\<close>\<close>
  e_read_bytes :: "path \<Rightarrow> failure + string"
    \<comment> \<open>the bytes that \<open>open(path, "rb")\<close> gives to read\<close>
  e_sha256 :: "string \<Rightarrow> string"
    \<comment> \<open>the SHA-256 digest of a byte string, in hexadecimal\<close>
  e_read_text :: "path \<Rightarrow> failure + string"
    \<comment> \<open>\<open>path.read_text(encoding="utf-8", errors="ignore")\<close>\<close>
  e_docx :: "path \<Rightarrow> failure + string list"
    \<comment> \<open>the texts of \<open>Document(path).paragraphs\<close>\<close>
  e_xlsx :: "path \<Rightarrow> failure + string list \<times> (failure + json list)"
    \<comment> \<open>the sheet names of the workbook and the first row of its first sheet\<close>
  e_pdf :: "path \<Rightarrow> failure + (failure + string option) list"
    \<comment> \<open>the pages of the document, each with what \<open>extract_text\<close> gives\<close>
  e_image :: "path \<Rightarrow> failure + nat \<times> nat"
    \<comment> \<open>width and height from \<open>Image.open\<close>\<close>
  e_title :: "string \<Rightarrow> string option"
    \<comment> \<open>group 1 of the first match of \<open><title>(.*?)</title>\<close>, if any\<close>

definition path_name :: "path \<Rightarrow> string" where
  "path_name p = (if p = [] then [] else last p)"

definition path_suffix :: "string \<Rightarrow> string" where
  \<comment> \<open>\<open>Path(name).suffix\<close>\<close>
  "path_suffix nm =
     (case rfind_char (CHR ''.'') nm of
        None \<Rightarrow> []
      | Some i \<Rightarrow> (if 0 < i \<and> i + 1 < length nm then drop i nm else []))"

function read_loop :: "nat \<Rightarrow> string \<Rightarrow> string \<Rightarrow> string" where
  \<comment> \<open>the \<open>while\<close> loop of \<open>sha256_file\<close>: what has been given to the hash\<close>
  "read_loop remaining unread hashed =
     (if remaining > 0
      then (let chunk = take (min 65536 remaining) unread
            in if chunk = [] then hashed
               else read_loop (remaining - length chunk) (drop (length chunk) unread)
                      (hashed @ chunk))
      else hashed)"
  by pat_completeness auto
termination
  by (relation "measure (\<lambda>(remaining, unread, hashed). remaining)") (auto simp: Let_def)

definition sha256_file :: "env \<Rightarrow> path \<Rightarrow> nat \<Rightarrow> failure + string" where
  "sha256_file E p max_bytes =
     (case e_read_bytes E p of
        Inl x \<Rightarrow> Inl x
      | Inr content \<Rightarrow> Inr (e_sha256 E (read_loop max_bytes content [])))"

definition try_except :: "failure + 'a \<Rightarrow> ('a \<Rightarrow> 'b) \<Rightarrow> (string \<Rightarrow> 'b) \<Rightarrow> error + 'b" where
  \<comment> \<open>\<open>try: v = r; body  except Exception as e: handler\<close>\<close>
  "try_except r body handler =
     (case r of
        Inr v \<Rightarrow> Inr (body v)
      | Inl (Exc msg) \<Rightarrow> Inr (handler msg)
      | Inl BaseExc \<Rightarrow> Inl Interrupt)"

definition type_name :: "json \<Rightarrow> string" where
  \<comment> \<open>\<open>type(v).__name__\<close>\<close>
  "type_name v =
     (case v of
        JNull \<Rightarrow> ''NoneType'' | JBool b \<Rightarrow> ''bool'' | JInt i \<Rightarrow> ''int''
      | JFloat x \<Rightarrow> ''float'' | JStr s \<Rightarrow> ''str'' | JArr xs \<Rightarrow> ''list''
      | JObj kvs \<Rightarrow> ''dict'')"

definition to_str :: "pylib \<Rightarrow> json \<Rightarrow> string" where
  \<comment> \<open>\<open>str(v)\<close>\<close>
  "to_str L v = (case v of JStr s \<Rightarrow> s | _ \<Rightarrow> py_str L v)"

fun join_nl :: "string list \<Rightarrow> string" where
  \<comment> \<open>\<open>"\n".join(parts)\<close>\<close>
  "join_nl [] = []"
| "join_nl [x] = x"
| "join_nl (x # y # ys) = x @ [CHR 0x0A] @ join_nl (y # ys)"

definition json_summary :: "pylib \<Rightarrow> string \<Rightarrow> string" where
  \<comment> \<open>the inner \<open>try\<close> of the JSON branch\<close>
  "json_summary L raw =
     (case json_loads L raw of
        None \<Rightarrow> take MAX_TEXT_CHARS raw
      | Some (JObj kvs) \<Rightarrow>
          ''JSON object keys: '' @ py_str L (JArr (map JStr (take 60 (map fst kvs))))
      | Some (JArr xs) \<Rightarrow>
          ''JSON array length: '' @ py_str L (JInt (int (length xs))) @
          ''; first item type: '' @ (if xs \<noteq> [] then type_name (hd xs) else ''empty'')
      | Some v \<Rightarrow> ''JSON type: '' @ type_name v)"

fun docx_parts :: "string list \<Rightarrow> string list \<Rightarrow> string list" where
  "docx_parts parts [] = parts"
| "docx_parts parts (t # ts) =
     (let parts1 = (if strip t \<noteq> [] then parts @ [strip t] else parts)
      in if sum_list (map length parts1) > MAX_TEXT_CHARS then parts1
         else docx_parts parts1 ts)"

definition xlsx_header :: "pylib \<Rightarrow> json list \<Rightarrow> string list" where
  "xlsx_header L row = map (\<lambda>cell. take 60 (to_str L cell)) (filter (\<lambda>cell. cell \<noteq> JNull) row)"

definition xlsx_text :: "pylib \<Rightarrow> string list \<times> (failure + json list) \<Rightarrow> failure + string" where
  "xlsx_text L wb =
     (let sheets = take 20 (fst wb);
          line1 = ''Sheets: '' @ py_str L (JArr (map JStr sheets))
      in if sheets \<noteq> []
         then (case snd wb of
                 Inl x \<Rightarrow> Inl x
               | Inr row \<Rightarrow>
                   (let header = xlsx_header L row
                    in Inr (take MAX_TEXT_CHARS (join_nl
                         (if header \<noteq> []
                          then [line1, ''Header row: '' @
                                  py_str L (JArr (map JStr (take 25 header)))]
                          else [line1])))))
         else Inr (take MAX_TEXT_CHARS (join_nl [line1])))"

fun pdf_parts :: "string list \<Rightarrow> (failure + string option) list \<Rightarrow> failure + string list" where
  "pdf_parts parts [] = Inr parts"
| "pdf_parts parts (pg # pgs) =
     (case pg of
        Inl x \<Rightarrow> Inl x
      | Inr t0 \<Rightarrow>
          (let t = strip (collapse_ws (case t0 of None \<Rightarrow> [] | Some t1 \<Rightarrow> t1));
               parts1 = (if t \<noteq> [] then parts @ [t] else parts)
           in if sum_list (map length parts1) > MAX_TEXT_CHARS then Inr parts1
              else pdf_parts parts1 pgs))"

function sub_backslash_s :: "string \<Rightarrow> string" where
  \<comment> \<open>\<open>re.sub(r'\\s+', ' ', s)\<close> as the SVG branch writes it: a backslash followed by
      one or more letters \<open>s\<close> becomes a space\<close>
  "sub_backslash_s [] = []"
| "sub_backslash_s (c # cs) =
     (if c = CHR 0x5C \<and> cs \<noteq> [] \<and> hd cs = CHR ''s''
      then CHR '' '' # sub_backslash_s (dropWhile (\<lambda>x. x = CHR ''s'') cs)
      else c # sub_backslash_s cs)"
  by pat_completeness auto
termination
  by (relation "measure length") (auto simp: less_Suc_eq_le length_dropWhile_le)

definition stat_info :: "env \<Rightarrow> path \<Rightarrow> error + preview_info" where
  \<comment> \<open>the initial dictionary and the first \<open>try\<close>, whose handler is \<open>pass\<close>\<close>
  "stat_info E p =
     (let info = \<lparr>pv_kind = ''metadata'', pv_text = [], pv_notes = [],
                  pv_size = None, pv_mtime = None, pv_hash = None\<rparr>
      in case e_stat E p of
           Inl BaseExc \<Rightarrow> Inl Interrupt
         | Inl (Exc msg) \<Rightarrow> Inr info
         | Inr (sz, t) \<Rightarrow>
             try_except (e_isotime E t)
               (\<lambda>iso. info\<lparr>pv_size := Some sz, pv_mtime := Some iso\<rparr>)
               (\<lambda>msg. info\<lparr>pv_size := Some sz\<rparr>))"

definition extract_branch :: "pylib \<Rightarrow> env \<Rightarrow> path \<Rightarrow> string \<Rightarrow> preview_info \<Rightarrow> error + preview_info" where
  \<comment> \<open>the chain of \<open>if ext in [...]\<close> of \<open>extract_preview\<close>, in its order\<close>
  "extract_branch L E p ex info =
     (if ex \<in> set [''.exe'', ''.msi'', ''.dll''] then
        try_except (sha256_file E p 2000000)
          (\<lambda>h. info\<lparr>pv_kind := ''binary'', pv_hash := Some h\<rparr>)
          (\<lambda>msg. info\<lparr>pv_kind := ''binary'', pv_notes := ''hash failed: '' @ msg\<rparr>)
      else if ex \<in> set [''.zip'', ''.rar'', ''.7z''] then Inr (info\<lparr>pv_kind := ''archive''\<rparr>)
      else if ex \<in> set [''.ai'', ''.psd''] then Inr (info\<lparr>pv_kind := ''design''\<rparr>)
      else if ex \<in> set [''.txt'', ''.md'', ''.log'', ''.csv''] then
        try_except (e_read_text E p)
          (\<lambda>txt. info\<lparr>pv_kind := ''text'', pv_text := take MAX_TEXT_CHARS txt\<rparr>)
          (\<lambda>msg. info\<lparr>pv_kind := ''text'', pv_notes := ''read failed: '' @ msg\<rparr>)
      else if ex \<in> set [''.json''] then
        try_except (e_read_text E p)
          (\<lambda>raw. info\<lparr>pv_kind := ''json'', pv_text := json_summary L raw\<rparr>)
          (\<lambda>msg. info\<lparr>pv_kind := ''json'', pv_notes := ''read failed: '' @ msg\<rparr>)
      else if ex \<in> set [''.docx''] then
        try_except (e_docx E p)
          (\<lambda>paras. info\<lparr>pv_kind := ''docx'',
             pv_text := take MAX_TEXT_CHARS (join_nl (docx_parts [] (take 80 paras)))\<rparr>)
          (\<lambda>msg. info\<lparr>pv_kind := ''docx'', pv_notes := ''docx parse failed: '' @ msg\<rparr>)
      else if ex \<in> set [''.xlsx'', ''.xlsm''] then
        try_except (case e_xlsx E p of Inl x \<Rightarrow> Inl x | Inr wb \<Rightarrow> xlsx_text L wb)
          (\<lambda>txt. info\<lparr>pv_kind := ''xlsx'', pv_text := txt\<rparr>)
          (\<lambda>msg. info\<lparr>pv_kind := ''xlsx'', pv_notes := ''xlsx parse failed: '' @ msg\<rparr>)
      else if ex \<in> set [''.pdf''] then
        try_except (case e_pdf E p of Inl x \<Rightarrow> Inl x | Inr pgs \<Rightarrow> pdf_parts [] (take 3 pgs))
          (\<lambda>parts. info\<lparr>pv_kind := ''pdf'', pv_text := take MAX_TEXT_CHARS (join_nl parts)\<rparr>)
          (\<lambda>msg. info\<lparr>pv_kind := ''pdf'', pv_notes := ''pdf parse failed: '' @ msg\<rparr>)
      else if ex \<in> set [''.jpg'', ''.jpeg'', ''.png'', ''.webp''] then
        try_except (e_image E p)
          (\<lambda>(w, h). info\<lparr>pv_kind := ''image'',
             pv_notes := py_str L (JInt (int w)) @ ''x'' @ py_str L (JInt (int h))\<rparr>)
          (\<lambda>msg. info\<lparr>pv_kind := ''image''\<rparr>)
      else if ex \<in> set [''.svg''] then
        try_except (e_read_text E p)
          (\<lambda>raw. info\<lparr>pv_kind := ''svg'',
             pv_text :=
               (case e_title E raw of
                  Some g \<Rightarrow> take MAX_TEXT_CHARS (''SVG title: '' @ strip (sub_backslash_s g))
                | None \<Rightarrow> take 800 raw)\<rparr>)
          (\<lambda>msg. info\<lparr>pv_kind := ''svg'', pv_notes := ''svg read failed: '' @ msg\<rparr>)
      else Inr info)"

definition ext_of :: "path \<Rightarrow> string" where
  \<comment> \<open>\<open>path.suffix.lower()\<close>\<close>
  "ext_of p = lower (path_suffix (path_name p))"

definition extract_preview :: "pylib \<Rightarrow> env \<Rightarrow> path \<Rightarrow> error + preview_info" where
  "extract_preview L E p =
     (let ex = ext_of p
      in case stat_info E p of
           Inl x \<Rightarrow> Inl x
         | Inr info \<Rightarrow> extract_branch L E p ex info)"

definition only_exceptions :: "env \<Rightarrow> path \<Rightarrow> bool" where
  \<comment> \<open>every file operation on \<open>p\<close> that raises, raises an instance of \<open>Exception\<close>\<close>
  "only_exceptions E p \<longleftrightarrow>
     (case e_stat E p of
        Inl x \<Rightarrow> x \<noteq> BaseExc
      | Inr (sz, t) \<Rightarrow> e_isotime E t \<noteq> Inl BaseExc) \<and>
     e_read_bytes E p \<noteq> Inl BaseExc \<and>
     e_read_text E p \<noteq> Inl BaseExc \<and>
     e_docx E p \<noteq> Inl BaseExc \<and>
     (case e_xlsx E p of
        Inl x \<Rightarrow> x \<noteq> BaseExc
      | Inr (sheets, row) \<Rightarrow> row \<noteq> Inl BaseExc) \<and>
     (case e_pdf E p of
        Inl x \<Rightarrow> x \<noteq> BaseExc
      | Inr pgs \<Rightarrow> Inl BaseExc \<notin> set (take 3 pgs)) \<and>
     e_image E p \<noteq> Inl BaseExc"

section \<open>\<open>apply_change\<close> and the apply batch\<close>

definition NEVER_OVERWRITE :: bool where
  "NEVER_OVERWRITE = True"

definition DEFAULT_MODE :: string where
  "DEFAULT_MODE = ''move''"

definition REFUSED :: string where
  "REFUSED = ''Destination exists (overwrite disabled).''"

text \<open>
  \<open>apply_change\<close> gives \<open>Inl\<close> when \<open>mkdir\<close> raises (that call is outside the \<open>try\<close>), and
  otherwise the tree after the call with the triple \<open>(ok, dest, err)\<close>. The root is the
  empty path, so \<open>root / rel\<close> is \<open>path_parts rel\<close>.
\<close>

definition apply_change ::
  "os_fault \<Rightarrow> fs \<Rightarrow> string \<Rightarrow> string \<Rightarrow> string \<Rightarrow> string \<Rightarrow> string
     \<Rightarrow> error + (fs \<times> bool \<times> string \<times> string)" where
  "apply_change flt f r rl dest_folder new_name md =
     (let src = path_parts rl;
          dest_dir = path_parts dest_folder
      in case mkdir_parents f dest_dir of
           Inl e \<Rightarrow> Inl e
         | Inr f1 \<Rightarrow>
             (let dest = dest_dir @ path_parts new_name
              in if NEVER_OVERWRITE \<and> f1 dest \<noteq> None
                 then Inr (f1, False, path_str r dest, REFUSED)
                 else (case (if md = ''copy'' then copy2 flt f1 src dest
                             else move flt f1 src dest) of
                         Inr f2 \<Rightarrow> Inr (f2, True, path_str r dest, [])
                       | Inl msg \<Rightarrow> Inr (f1, False, path_str r dest, msg))))"

record result =
  r_rel :: string
  r_dest :: string
  r_ok :: bool
  r_err :: string
  r_mode :: string

record log_entry =
  l_action :: string
  l_mode :: string
  l_src :: string
  l_dest :: string
  l_ok :: bool
  l_error :: string

text \<open>
  The state of one run of \<open>apply\<close>: the tree, the audit log, the items already passed
  (in order) and the results so far.
\<close>

record apply_state =
  a_fs :: fs
  a_log :: "log_entry list"
  a_items :: items
  a_results :: "result list"

definition truthy :: "string \<Rightarrow> bool" where
  "truthy s \<longleftrightarrow> s \<noteq> []"

definition apply_item ::
  "os_fault \<Rightarrow> string \<Rightarrow> string \<Rightarrow> apply_state \<Rightarrow> string \<times> item
     \<Rightarrow> (error \<times> apply_state) + apply_state" where
  \<comment> \<open>one pass through the body of the loop of \<open>apply\<close>\<close>
  "apply_item flt r md st e =
     (let rl = fst e; it = snd e
      in if status it \<noteq> Candidate then Inr (st\<lparr>a_items := a_items st @ [(rl, it)]\<rparr>)
         else if \<not> approved it then Inr (st\<lparr>a_items := a_items st @ [(rl, it)]\<rparr>)
         else
           (let dest_folder = (if truthy (edited_folder it) then edited_folder it else TOSORT);
                new_name = (if truthy (edited_name it) then edited_name it else name it)
            in case apply_change flt (a_fs st) r rl dest_folder new_name md of
                 Inl x \<Rightarrow> Inl (x, st)
               | Inr (f', ok, dest, err) \<Rightarrow>
                   Inr \<lparr>a_fs = f',
                        a_log = a_log st @
                          [\<lparr>l_action = ''apply'', l_mode = md, l_src = path_str r (path_parts rl),
                            l_dest = dest, l_ok = ok, l_error = err\<rparr>],
                        a_items = a_items st @
                          [(rl, if ok then it\<lparr>status := Done, approved := False,
                                              done_dest := Some dest\<rparr>
                                else it)],
                        a_results = a_results st @
                          [\<lparr>r_rel = rl, r_dest = dest, r_ok = ok, r_err = err,
                            r_mode = md\<rparr>]\<rparr>))"

fun apply_loop ::
  "os_fault \<Rightarrow> string \<Rightarrow> string \<Rightarrow> apply_state \<Rightarrow> items
     \<Rightarrow> (error \<times> apply_state) + apply_state" where
  "apply_loop flt r md st [] = Inr st"
| "apply_loop flt r md st (e # es) =
     (case apply_item flt r md st e of
        Inl x \<Rightarrow> Inl x
      | Inr st' \<Rightarrow> apply_loop flt r md st' es)"

text \<open>
  What a run of \<open>apply\<close> leaves behind: the registry on disk, the tree and the audit log.
  The registry is saved only when the loop ends; when \<open>mkdir\<close> raises, the tree and the log
  keep what the run did so far and the registry is the old one.
\<close>

record world =
  w_state :: state
  w_fs :: fs
  w_log :: "log_entry list"

definition apply_approved :: "os_fault \<Rightarrow> world \<Rightarrow> world \<times> (error + result list)" where
  \<comment> \<open>the route \<open>apply\<close>\<close>
  "apply_approved flt w =
     (let s = w_state w
      in case apply_loop flt (root s) (mode s)
                \<lparr>a_fs = w_fs w, a_log = w_log w, a_items = [], a_results = []\<rparr> (items s) of
           Inl (x, st) \<Rightarrow> (w\<lparr>w_fs := a_fs st, w_log := a_log st\<rparr>, Inl x)
         | Inr st \<Rightarrow>
             (\<lparr>w_state = s\<lparr>items := a_items st\<rparr>, w_fs = a_fs st, w_log = a_log st\<rparr>,
              Inr (a_results st)))"

definition eligible :: "item \<Rightarrow> bool" where
  \<comment> \<open>an item that passes both \<open>continue\<close> tests of the loop of \<open>apply\<close>\<close>
  "eligible it \<longleftrightarrow> status it = Candidate \<and> approved it"

section \<open>Tagging and proposals\<close>

definition bulk_set_status :: "string \<Rightarrow> string list \<Rightarrow> state \<Rightarrow> state" where
  "bulk_set_status new_status sels s =
     (let new_status1 =
            (if new_status \<notin> set [''candidate'', ''never''] then ''candidate''
             else new_status);
          st = (if new_status1 = ''never'' then Never else Candidate)
      in s\<lparr>items :=
            map (\<lambda>(rl, it).
                   if rl \<in> set sels \<and> status it \<noteq> Done
                   then (rl, it\<lparr>status := st, approved := False\<rparr>)
                   else (rl, it))
                (items s)\<rparr>)"

text \<open>
  The form of a request: \<open>f_list k\<close> is \<open>request.form.getlist(k)\<close> and \<open>f_get k\<close> is
  \<open>request.form.get(k)\<close>, \<open>None\<close> when the field is absent.
\<close>

record form =
  f_list :: "string \<Rightarrow> string list"
  f_get :: "string \<Rightarrow> string option"

definition update_item :: "form \<Rightarrow> string \<times> item \<Rightarrow> string \<times> item" where
  "update_item fm e =
     (let rl = fst e; it = snd e
      in if status it \<noteq> Candidate \<or> suggestion it = None then (rl, it)
         else
           (let new_folder =
                  (case f_get fm (''folder__'' @ rl) of
                     Some v \<Rightarrow> v | None \<Rightarrow> edited_folder it);
                new_name =
                  (case f_get fm (''name__'' @ rl) of
                     Some v \<Rightarrow> v | None \<Rightarrow> edited_name it)
            in (rl, it\<lparr>approved := (rl \<in> set (f_list fm ''appr'')),
                       edited_folder := new_folder,
                       edited_name := safe_filename new_name\<rparr>)))"

definition update_proposals :: "form \<Rightarrow> state \<Rightarrow> state" where
  "update_proposals fm s = s\<lparr>items := map (update_item fm) (items s)\<rparr>"

section \<open>The suggestion batch\<close>

definition suggest_item ::
  "pylib \<Rightarrow> advisor \<Rightarrow> env \<Rightarrow> string list \<Rightarrow> string \<times> item \<Rightarrow> error + item" where
  \<comment> \<open>the body of the loop of \<open>suggest\<close> for an item that passed both \<open>continue\<close> tests\<close>
  "suggest_item L adv E allowed e =
     (let rl = fst e; it = snd e
      in case (case preview it of
                 None \<Rightarrow> extract_preview L E (path_parts rl)
               | Some pv \<Rightarrow> Inr pv) of
           Inl x \<Rightarrow> Inl x
         | Inr pv \<Rightarrow>
             (case ollama_suggest L adv (name it) (ext it) pv allowed of
                Inl x \<Rightarrow> Inl x
              | Inr sug \<Rightarrow>
                  Inr (it\<lparr>preview := Some pv,
                          suggestion := Some sug,
                          edited_name := suggested_name sug,
                          edited_folder := suggested_folder sug,
                          approved := pf_ge (confidence sug) (Finite 0.75)\<rparr>)))"

definition cons_ok :: "'a \<Rightarrow> error + 'a list \<Rightarrow> error + 'a list" where
  "cons_ok x r = (case r of Inl e \<Rightarrow> Inl e | Inr xs \<Rightarrow> Inr (x # xs))"

fun suggest_loop ::
  "pylib \<Rightarrow> advisor \<Rightarrow> env \<Rightarrow> string list \<Rightarrow> int \<Rightarrow> nat \<Rightarrow> items \<Rightarrow> error + items" where
  "suggest_loop L adv E allowed limit suggested [] = Inr []"
| "suggest_loop L adv E allowed limit suggested (e # es) =
     (if status (snd e) \<noteq> Candidate then
        cons_ok e (suggest_loop L adv E allowed limit suggested es)
      else if suggestion (snd e) \<noteq> None then
        cons_ok e (suggest_loop L adv E allowed limit suggested es)
      else (case suggest_item L adv E allowed e of
              Inl x \<Rightarrow> Inl x
            | Inr it' \<Rightarrow>
                (if int (suggested + 1) \<ge> limit then Inr ((fst e, it') # es)
                 else cons_ok (fst e, it')
                        (suggest_loop L adv E allowed limit (suggested + 1) es))))"

definition suggest :: "pylib \<Rightarrow> advisor \<Rightarrow> env \<Rightarrow> int \<Rightarrow> state \<Rightarrow> error + state" where
  \<comment> \<open>the route \<open>suggest\<close> with the parsed \<open>limit\<close> argument; an exception leaves the
      saved registry as it was\<close>
  "suggest L adv E limit0 s =
     (let limit = max 1 (min 50 limit0)
      in case suggest_loop L adv E (allowed_folders s) limit 0 (items s) of
           Inl x \<Rightarrow> Inl x
         | Inr its \<Rightarrow> Inr (s\<lparr>items := its\<rparr>))"

section \<open>Sample inputs\<close>

text \<open>
  Concrete libraries, advisors and registries on which the theorems below are run.
  \<open>lib_reply obj\<close> is a library whose \<open>json.loads\<close> reads every text as \<open>obj\<close>.
\<close>

definition lib_reply :: "json \<Rightarrow> pylib" where
  "lib_reply obj =
     \<lparr>json_loads = (\<lambda>s. Some obj),
      str_to_float = (\<lambda>s. None),
      int_to_float = (\<lambda>i. Some (Finite (real_of_int i))),
      py_str = (\<lambda>v. [])\<rparr>"

definition adv_text :: "string \<Rightarrow> advisor" where
  \<comment> \<open>an Advisor that answers every request with the same text\<close>
  "adv_text t = (\<lambda>filename ex kind content allowed. Inr t)"

definition pdf_preview :: preview_info where
  "pdf_preview =
     \<lparr>pv_kind = ''pdf'', pv_text = ''Invoice #123 dated 2024-03-01'', pv_notes = [],
      pv_size = Some 1024, pv_mtime = None, pv_hash = None\<rparr>"

definition invoice_reply :: json where
  "invoice_reply =
     JObj [(''suggested_name'', JStr ''Invoice_2024-03-01.pdf''),
           (''suggested_folder'', JStr ''Finance/Invoices/2024''),
           (''confidence'', JFloat (Finite (9 / 10))),
           (''reason'', JStr ''dated invoice'')]"


definition scan_item :: "string \<Rightarrow> string \<Rightarrow> string \<Rightarrow> item" where
  \<comment> \<open>an item as \<open>scan\<close> creates it\<close>
  "scan_item rl nm ex =
     \<lparr>rel = rl, name = nm, ext = ex, fsize = 0, mtime = [], status = Candidate,
      approved = False, preview = None, suggestion = None, edited_name = [],
      edited_folder = [], done_dest = None\<rparr>"

definition env_missing :: env where
  \<comment> \<open>an environment in which every file operation raises\<close>
  "env_missing =
     \<lparr>e_stat = (\<lambda>p. Inl (Exc ''missing'')),
      e_isotime = (\<lambda>t. Inl (Exc ''missing'')),
      e_read_bytes = (\<lambda>p. Inl (Exc ''missing'')),
      e_sha256 = (\<lambda>b. b),
      e_read_text = (\<lambda>p. Inl (Exc ''missing'')),
      e_docx = (\<lambda>p. Inl (Exc ''missing'')),
      e_xlsx = (\<lambda>p. Inl (Exc ''missing'')),
      e_pdf = (\<lambda>p. Inl (Exc ''missing'')),
      e_image = (\<lambda>p. Inl (Exc ''missing'')),
      e_title = (\<lambda>s. None)\<rparr>"

definition invoice_item :: item where
  "invoice_item =
     (scan_item ''invoice_2024_03.pdf'' ''invoice_2024_03.pdf'' ''.pdf'')
       \<lparr>preview := Some pdf_preview\<rparr>"

definition invoice_suggestion :: suggestion where
  "invoice_suggestion =
     \<lparr>suggested_name = ''Invoice_2024-03-01.pdf'',
      suggested_folder = ''Finance/Invoices/2024'',
      confidence = Finite (9 / 10), reason = ''dated invoice''\<rparr>"

definition invoice_item_suggested :: item where
  "invoice_item_suggested =
     invoice_item
       \<lparr>suggestion := Some invoice_suggestion,
        edited_name := ''Invoice_2024-03-01.pdf'',
        edited_folder := ''Finance/Invoices/2024'',
        approved := True\<rparr>"

definition registry :: "items \<Rightarrow> state" where
  "registry its =
     \<lparr>root = ''/dl'', mode = ''move'', items = its, allowed_folders = ALLOWED_FOLDERS\<rparr>"

definition adv_down_for :: "string \<Rightarrow> string \<Rightarrow> advisor" where
  \<comment> \<open>an Advisor that cannot be reached for one file name and answers the others\<close>
  "adv_down_for bad t =
     (\<lambda>filename ex kind content allowed. if filename = bad then Inl RequestError else Inr t)"

definition form_folder :: "string \<Rightarrow> string \<Rightarrow> form" where
  \<comment> \<open>a form that carries one field, the folder of one item\<close>
  "form_folder rl v =
     \<lparr>f_list = (\<lambda>k. []), f_get = (\<lambda>k. if k = ''folder__'' @ rl then Some v else None)\<rparr>"

definition invoice_tree :: fs where
  "invoice_tree =
     [[] \<mapsto> Dir,
      [''invoice_2024_03.pdf''] \<mapsto> File ''Invoice #123 dated 2024-03-01'',
      [''Finance''] \<mapsto> Dir,
      [''Finance'', ''Invoices''] \<mapsto> Dir,
      [''Finance'', ''Invoices'', ''2024''] \<mapsto> Dir,
      [''Finance'', ''Invoices'', ''2024'', ''Invoice_2024-03-01.pdf''] \<mapsto> File ''older'']"

definition no_fault :: os_fault where
  "no_fault = (\<lambda>src dest. None)"

definition start :: "fs \<Rightarrow> apply_state" where
  "start f = \<lparr>a_fs = f, a_log = [], a_items = [], a_results = []\<rparr>"

definition flat_tree :: fs where
  "flat_tree = [[] \<mapsto> Dir, [''a.txt''] \<mapsto> File ''alpha'']"

definition ready_tree :: fs where
  "ready_tree =
     [[] \<mapsto> Dir,
      [''invoice_2024_03.pdf''] \<mapsto> File ''Invoice #123 dated 2024-03-01'',
      [''Finance''] \<mapsto> Dir,
      [''Finance'', ''Invoices''] \<mapsto> Dir,
      [''Finance'', ''Invoices'', ''2024''] \<mapsto> Dir]"

definition invoice_dest :: path where
  "invoice_dest = [''Finance'', ''Invoices'', ''2024'', ''Invoice_2024-03-01.pdf'']"

definition invoice_item_done :: item where
  "invoice_item_done =
     invoice_item_suggested
       \<lparr>status := Done, approved := False, done_dest := Some (path_str ''/dl'' invoice_dest)\<rparr>"

definition moved_tree :: fs where
  "moved_tree =
     (\<lambda>p. if prefix invoice_dest p
          then ready_tree ([''invoice_2024_03.pdf''] @ drop (length invoice_dest) p)
          else if prefix [''invoice_2024_03.pdf''] p then None
          else ready_tree p)"

definition invoice_moved :: apply_state where
  "invoice_moved =
     \<lparr>a_fs = moved_tree,
      a_log = [\<lparr>l_action = ''apply'', l_mode = ''move'',
                l_src = path_str ''/dl'' [''invoice_2024_03.pdf''],
                l_dest = path_str ''/dl'' invoice_dest, l_ok = True, l_error = []\<rparr>],
      a_items = [(''invoice_2024_03.pdf'', invoice_item_done)],
      a_results = [\<lparr>r_rel = ''invoice_2024_03.pdf'', r_dest = path_str ''/dl'' invoice_dest,
                    r_ok = True, r_err = [], r_mode = ''move''\<rparr>]\<rparr>"

definition old_item :: item where
  \<comment> \<open>an item that an earlier run has applied\<close>
  "old_item =
     (scan_item ''old.pdf'' ''old.pdf'' ''.pdf'')
       \<lparr>status := Done, done_dest := Some ''/dl/_ToSort/old.pdf''\<rparr>"

definition kept_item :: item where
  \<comment> \<open>an item tagged never, with the approval flag set\<close>
  "kept_item = (scan_item ''keep.txt'' ''keep.txt'' ''.txt'') \<lparr>status := Never, approved := True\<rparr>"

definition mixed_items :: items where
  "mixed_items =
     [(''old.pdf'', old_item), (''keep.txt'', kept_item),
      (''invoice_2024_03.pdf'', invoice_item_suggested)]"

definition mixed_world :: world where
  "mixed_world = \<lparr>w_state = registry mixed_items, w_fs = invoice_tree, w_log = []\<rparr>"

definition refusal_entry :: log_entry where
  "refusal_entry =
     \<lparr>l_action = ''apply'', l_mode = ''move'',
      l_src = path_str ''/dl'' [''invoice_2024_03.pdf''],
      l_dest = path_str ''/dl'' invoice_dest, l_ok = False, l_error = REFUSED\<rparr>"

definition refusal_result :: result where
  "refusal_result =
     \<lparr>r_rel = ''invoice_2024_03.pdf'', r_dest = path_str ''/dl'' invoice_dest,
      r_ok = False, r_err = REFUSED, r_mode = ''move''\<rparr>"


section \<open>Properties of the normalization\<close>

lemma py_clamp_range:
  "\<exists>r. py_max (Finite 0) (py_min (Finite 1) x) = Finite r \<and> 0 \<le> r \<and> r \<le> 1"
  by (cases x) (auto simp: py_max_def py_min_def)

lemma normalize_confidence_range:
  "\<exists>r. normalize_confidence L v = Finite r \<and> 0 \<le> r \<and> r \<le> 1"
  unfolding normalize_confidence_def Let_def by (rule py_clamp_range)


lemma ollama_suggest_confidence_range:
  assumes "ollama_suggest L adv filename ex pv allowed = Inr sug"
  shows "\<exists>r. confidence sug = Finite r \<and> 0 \<le> r \<and> r \<le> 1"
proof -
  have fb: "\<And>why. \<exists>r. confidence (fallback_suggestion filename why) = Finite r \<and> 0 \<le> r \<and> r \<le> 1"
    by (simp add: fallback_suggestion_def)
  have nm: "\<And>obj. normalize_reply L filename ex allowed obj = Inr sug \<Longrightarrow>
              \<exists>r. confidence sug = Finite r \<and> 0 \<le> r \<and> r \<le> 1"
    using normalize_confidence_range
    by (auto simp: normalize_reply_def split: json.splits option.splits)
  from assms show ?thesis
    using fb nm
    by (auto simp: ollama_suggest_def Let_def split: sum.splits option.splits if_splits)
qed

lemma normalize_folder_allowed:
  "normalize_folder v allowed \<in> set allowed \<union> {TOSORT}"
  by (auto simp: normalize_folder_def split: option.splits json.splits)

lemma ollama_suggest_folder_allowed:
  assumes "ollama_suggest L adv filename ex pv allowed = Inr sug"
  shows "suggested_folder sug \<in> set allowed \<union> {TOSORT}"
proof -
  have nm: "\<And>obj. normalize_reply L filename ex allowed obj = Inr sug \<Longrightarrow>
              suggested_folder sug \<in> set allowed \<union> {TOSORT}"
  proof -
    fix obj
    assume a: "normalize_reply L filename ex allowed obj = Inr sug"
    then obtain v where "suggested_folder sug = normalize_folder v allowed"
      by (auto simp: normalize_reply_def split: json.splits option.splits)
    then show "suggested_folder sug \<in> set allowed \<union> {TOSORT}"
      using normalize_folder_allowed [of v allowed] by simp
  qed
  from assms show ?thesis
    using nm
    by (auto simp: ollama_suggest_def Let_def fallback_suggestion_def
        split: sum.splits option.splits if_splits)
qed



section \<open>Properties of the suggestion batch\<close>

lemma suggest_loop_rel:
  "suggest_loop L adv E allowed limit n xs = Inr ys \<Longrightarrow>
     list_all2 (\<lambda>x y. y = x \<or>
        (status (snd x) = Candidate \<and> suggestion (snd x) = None \<and>
         (\<exists>it'. suggest_item L adv E allowed x = Inr it' \<and> y = (fst x, it')))) xs ys"
proof (induction xs arbitrary: n ys)
  case Nil
  then show ?case by simp
next
  case (Cons e es)
  then show ?case
    by (auto simp: cons_ok_def list_all2_same split: if_splits sum.splits)
qed

lemma suggest_item_fields:
  assumes "suggest_item L adv E allowed (rl, it) = Inr it'"
  shows "\<exists>pv sug. ollama_suggest L adv (name it) (ext it) pv allowed = Inr sug \<and>
           suggestion it' = Some sug \<and>
           edited_name it' = suggested_name sug \<and>
           edited_folder it' = suggested_folder sug \<and>
           approved it' = pf_ge (confidence sug) (Finite 0.75)"
  using assms by (auto simp: suggest_item_def Let_def split: sum.splits option.splits)

text \<open>
  C7. When a run of \<open>suggest\<close> returns and an item that had no suggestion has one
  afterwards, the item was a candidate, the suggestion is what \<open>ollama_suggest\<close> returned
  for its name and extension, \<open>edited_name\<close> and \<open>edited_folder\<close> are the name and folder
  of that suggestion, and \<open>approved\<close> holds exactly when its confidence is at least 0.75.
\<close>

theorem first_suggestion_initializes:
  assumes "suggest L adv E limit s = Inr s'"
    and "i < length (items s)"
    and "items s ! i = (rl, it)"
    and "suggestion it = None"
    and "items s' ! i = (rl', it')"
    and "suggestion it' = Some sug"
  shows "rl' = rl \<and> status it = Candidate \<and>
         (\<exists>pv. ollama_suggest L adv (name it) (ext it) pv (allowed_folders s) = Inr sug) \<and>
         edited_name it' = suggested_name sug \<and>
         edited_folder it' = suggested_folder sug \<and>
         (\<exists>r. confidence sug = Finite r \<and> 0 \<le> r \<and> r \<le> 1 \<and> (approved it' \<longleftrightarrow> 0.75 \<le> r))"
proof -
  from assms(1) obtain ys where
    loop: "suggest_loop L adv E (allowed_folders s) (max 1 (min 50 limit)) 0 (items s) = Inr ys"
    and s': "items s' = ys"
    by (auto simp: suggest_def Let_def split: sum.splits)
  from suggest_loop_rel [OF loop] assms(2)
  have "ys ! i = items s ! i \<or>
        (status (snd (items s ! i)) = Candidate \<and> suggestion (snd (items s ! i)) = None \<and>
         (\<exists>it'. suggest_item L adv E (allowed_folders s) (items s ! i) = Inr it' \<and>
                ys ! i = (fst (items s ! i), it')))"
    by (auto dest: list_all2_nthD)
  with assms(3,4,5,6) s'
  have st: "status it = Candidate" and rl: "rl' = rl"
    and item: "suggest_item L adv E (allowed_folders s) (rl, it) = Inr it'"
    by auto
  from suggest_item_fields [OF item] assms(6) obtain pv where
    sug: "ollama_suggest L adv (name it) (ext it) pv (allowed_folders s) = Inr sug"
    and en: "edited_name it' = suggested_name sug"
    and ef: "edited_folder it' = suggested_folder sug"
    and ap: "approved it' = pf_ge (confidence sug) (Finite 0.75)"
    by auto
  from ollama_suggest_confidence_range [OF sug] obtain r where
    r: "confidence sug = Finite r" "0 \<le> r" "r \<le> 1"
    by auto
  from ap r have "approved it' \<longleftrightarrow> 0.75 \<le> r"
    by (auto simp: pf_ge_def)
  with st rl sug en ef r show ?thesis by blast
qed

theorem first_suggestion_initializes_witness:
  "suggest (lib_reply invoice_reply) (adv_text ''{}'') env_missing 10
      (registry [(''invoice_2024_03.pdf'', invoice_item)]) =
     Inr (registry [(''invoice_2024_03.pdf'', invoice_item_suggested)]) \<and>
   suggestion invoice_item = None \<and>
   suggestion invoice_item_suggested = Some invoice_suggestion \<and>
   status invoice_item = Candidate \<and>
   edited_name invoice_item_suggested = ''Invoice_2024-03-01.pdf'' \<and>
   edited_folder invoice_item_suggested = ''Finance/Invoices/2024'' \<and>
   (\<exists>r. confidence invoice_suggestion = Finite r \<and> 0 \<le> r \<and> r \<le> 1 \<and>
        (approved invoice_item_suggested \<longleftrightarrow> 0.75 \<le> r))"
proof -
  have h1: "suggest (lib_reply invoice_reply) (adv_text ''{}'') env_missing 10
      (registry [(''invoice_2024_03.pdf'', invoice_item)]) =
     Inr (registry [(''invoice_2024_03.pdf'', invoice_item_suggested)])"
    by code_simp
  have h4: "suggestion invoice_item = None"
    by (simp add: invoice_item_def scan_item_def)
  have h6: "suggestion invoice_item_suggested = Some invoice_suggestion"
    by (simp add: invoice_item_suggested_def)
  from first_suggestion_initializes
         [OF h1, of 0 "''invoice_2024_03.pdf''" invoice_item "''invoice_2024_03.pdf''"
            invoice_item_suggested invoice_suggestion] h4 h6
  have "status invoice_item = Candidate \<and>
        edited_name invoice_item_suggested = suggested_name invoice_suggestion \<and>
        edited_folder invoice_item_suggested = suggested_folder invoice_suggestion \<and>
        (\<exists>r. confidence invoice_suggestion = Finite r \<and> 0 \<le> r \<and> r \<le> 1 \<and>
             (approved invoice_item_suggested \<longleftrightarrow> 0.75 \<le> r))"
    by (simp add: registry_def)
  with h1 h4 h6 show ?thesis
    by (simp add: invoice_suggestion_def)
qed

text \<open>
  C2. The code at an Advisor that cannot be reached: \<open>ollama_suggest\<close> has no handler
  around the request, and neither has the loop of \<open>suggest\<close>. With two candidates, the
  first answered and the second not, the whole run raises: no fallback suggestion is made
  for the second item, and the registry is not saved, so the suggestion of the first
  item is lost as well.
\<close>

theorem unreachable_advisor_aborts_batch:
  "suggest (lib_reply invoice_reply) (adv_down_for ''b.pdf'' ''{}'') env_missing 10
     (registry [(''invoice_2024_03.pdf'', invoice_item),
                (''b.pdf'', scan_item ''b.pdf'' ''b.pdf'' ''.pdf'')]) =
   Inl RequestError"
  by code_simp

section \<open>Properties of tagging and proposals\<close>

text \<open>
  C3. The code at a form whose folder field is not in the taxonomy: \<open>update_proposals\<close>
  stores the field as it came. The item below has a suggestion in an allowed folder; after
  the edit its \<open>edited_folder\<close> is \<open>Random/NotAllowed\<close>, which is neither an allowed folder
  nor the fallback.
\<close>

theorem update_proposals_stores_any_folder:
  "map (edited_folder \<circ> snd)
     (items (update_proposals (form_folder ''invoice_2024_03.pdf'' ''Random/NotAllowed'')
               (registry [(''invoice_2024_03.pdf'', invoice_item_suggested)]))) =
     [''Random/NotAllowed''] \<and>
   ''Random/NotAllowed'' \<notin> set ALLOWED_FOLDERS \<union> {TOSORT}"
  by code_simp

section \<open>Properties of the file system and of \<open>apply\<close>\<close>

lemma mkdirs_frame:
  "mkdirs f ps = Inr f' \<Longrightarrow> f p \<noteq> None \<Longrightarrow> f' p = f p"
proof (induction ps arbitrary: f)
  case Nil
  then show ?case by simp
next
  case (Cons q qs)
  show ?case
  proof (cases "f q")
    case None
    with Cons.prems have run: "mkdirs (f(q \<mapsto> Dir)) qs = Inr f'" and ne: "q \<noteq> p" by auto
    from ne Cons.prems(2) have "(f(q \<mapsto> Dir)) p \<noteq> None" by simp
    from Cons.IH [OF run this] ne show ?thesis by simp
  next
    case (Some n)
    with Cons.prems have run: "mkdirs f qs = Inr f'" by (cases n) auto
    from Cons.IH [OF run Cons.prems(2)] show ?thesis .
  qed
qed

lemma mkdirs_new:
  "mkdirs f ps = Inr f' \<Longrightarrow> f p = None \<Longrightarrow> f' p \<noteq> None \<Longrightarrow> f' p = Some Dir \<and> p \<in> set ps"
proof (induction ps arbitrary: f)
  case Nil
  then show ?case by simp
next
  case (Cons q qs)
  show ?case
  proof (cases "f q")
    case None
    with Cons.prems have run: "mkdirs (f(q \<mapsto> Dir)) qs = Inr f'" by auto
    show ?thesis
    proof (cases "q = p")
      case True
      with mkdirs_frame [OF run, of p] show ?thesis by simp
    next
      case False
      with Cons.IH [OF run] Cons.prems(2,3) show ?thesis by simp
    qed
  next
    case (Some n)
    with Cons.prems have "mkdirs f qs = Inr f'" by (cases n) auto
    with Cons.IH [of f] Cons.prems(2,3) show ?thesis by simp
  qed
qed

lemma mkdirs_dirs:
  "mkdirs f ps = Inr f' \<Longrightarrow> p \<in> set ps \<Longrightarrow> f' p = Some Dir"
proof (induction ps arbitrary: f)
  case Nil
  then show ?case by simp
next
  case (Cons q qs)
  show ?case
  proof (cases "f q")
    case None
    with Cons.prems have run: "mkdirs (f(q \<mapsto> Dir)) qs = Inr f'" by auto
    show ?thesis
    proof (cases "p = q")
      case True
      with mkdirs_frame [OF run, of q] show ?thesis by simp
    next
      case False
      with Cons.IH [OF run] Cons.prems(2) show ?thesis by simp
    qed
  next
    case (Some n)
    with Cons.prems have run: "mkdirs f qs = Inr f'" and n: "n = Dir" by (cases n; auto)+
    show ?thesis
    proof (cases "p = q")
      case True
      with mkdirs_frame [OF run, of q] Some n show ?thesis by simp
    next
      case False
      with Cons.IH [OF run] Cons.prems(2) show ?thesis by simp
    qed
  qed
qed

lemma mkdirs_noop:
  "\<forall>p \<in> set ps. f p = Some Dir \<Longrightarrow> mkdirs f ps = Inr f"
  by (induction ps) auto

lemma apply_loop_append:
  "apply_loop flt r md st (xs @ ys) =
     (case apply_loop flt r md st xs of
        Inl x \<Rightarrow> Inl x
      | Inr st' \<Rightarrow> apply_loop flt r md st' ys)"
  by (induction xs arbitrary: st) (auto split: sum.splits)

lemma apply_change_refused:
  assumes "\<forall>q \<in> set (prefixes (path_parts dest_folder)). f q = Some Dir"
    and "f (path_parts dest_folder @ path_parts new_name) \<noteq> None"
  shows "apply_change flt f r rl dest_folder new_name md =
           Inr (f, False, path_str r (path_parts dest_folder @ path_parts new_name), REFUSED)"
  using assms mkdirs_noop [of "prefixes (path_parts dest_folder)" f]
  by (simp add: apply_change_def mkdir_parents_def Let_def NEVER_OVERWRITE_def)


lemma apply_item_refused:
  assumes cand: "status it = Candidate" and appr: "approved it"
    and dd: "dest_dir = path_parts (if truthy (edited_folder it) then edited_folder it else TOSORT)"
    and d: "dest = dest_dir @ path_parts (if truthy (edited_name it) then edited_name it else name it)"
    and holds: "a_fs st dest \<noteq> None"
    and anc: "\<forall>q \<in> set (prefixes dest_dir). a_fs st q = Some Dir"
  shows "apply_item flt r md st (rl, it) =
         Inr (st\<lparr>a_log := a_log st @
                    [\<lparr>l_action = ''apply'', l_mode = md, l_src = path_str r (path_parts rl),
                      l_dest = path_str r dest, l_ok = False, l_error = REFUSED\<rparr>],
                  a_items := a_items st @ [(rl, it)],
                  a_results := a_results st @
                    [\<lparr>r_rel = rl, r_dest = path_str r dest, r_ok = False, r_err = REFUSED,
                      r_mode = md\<rparr>]\<rparr>)"
proof -
  let ?folder = "if truthy (edited_folder it) then edited_folder it else TOSORT"
  let ?nm = "if truthy (edited_name it) then edited_name it else name it"
  have "apply_change flt (a_fs st) r rl ?folder ?nm md =
          Inr (a_fs st, False, path_str r dest, REFUSED)"
    using apply_change_refused [of ?folder "a_fs st" ?nm flt r rl md] holds anc dd d
    by simp
  with cand appr show ?thesis
    by (simp add: apply_item_def Let_def)
qed

text \<open>
  C1. In any apply batch, when the turn of an approved candidate comes and its
  destination path exists in the tree (the directories above the destination being
  directories, as they are above any existing path), the loop leaves the tree as it is,
  so neither the source nor the file at the destination changes; it appends a failed
  entry with the refusal text to the audit log and to the results, keeps the item as it
  was, with status candidate, and goes on with the rest of the batch.
\<close>

theorem overwrite_refused:
  assumes reach: "apply_loop flt r md st0 pre = Inr st"
    and cand: "status it = Candidate" and appr: "approved it"
    and dd: "dest_dir = path_parts (if truthy (edited_folder it) then edited_folder it else TOSORT)"
    and d: "dest = dest_dir @ path_parts (if truthy (edited_name it) then edited_name it else name it)"
    and holds: "a_fs st dest \<noteq> None"
    and anc: "\<forall>q \<in> set (prefixes dest_dir). a_fs st q = Some Dir"
  shows "apply_loop flt r md st0 (pre @ (rl, it) # post) =
         apply_loop flt r md
           (st\<lparr>a_log := a_log st @
                    [\<lparr>l_action = ''apply'', l_mode = md, l_src = path_str r (path_parts rl),
                      l_dest = path_str r dest, l_ok = False, l_error = REFUSED\<rparr>],
                  a_items := a_items st @ [(rl, it)],
                  a_results := a_results st @
                    [\<lparr>r_rel = rl, r_dest = path_str r dest, r_ok = False, r_err = REFUSED,
                      r_mode = md\<rparr>]\<rparr>) post"
  using reach apply_item_refused [OF cand appr dd d holds anc, of flt r md rl]
  by (simp add: apply_loop_append)

lemma parts_invoice_folder:
  "path_parts ''Finance/Invoices/2024'' = [''Finance'', ''Invoices'', ''2024'']"
  by code_simp

lemma parts_invoice_name:
  "path_parts ''Invoice_2024-03-01.pdf'' = [''Invoice_2024-03-01.pdf'']"
  by code_simp

theorem overwrite_refused_witness:
  "apply_loop no_fault ''/dl'' ''move'' (start invoice_tree)
      [(''invoice_2024_03.pdf'', invoice_item_suggested)] =
   Inr ((start invoice_tree)
      \<lparr>a_log :=
         [\<lparr>l_action = ''apply'', l_mode = ''move'',
           l_src = path_str ''/dl'' (path_parts ''invoice_2024_03.pdf''),
           l_dest = path_str ''/dl''
             [''Finance'', ''Invoices'', ''2024'', ''Invoice_2024-03-01.pdf''],
           l_ok = False, l_error = REFUSED\<rparr>],
       a_items := [(''invoice_2024_03.pdf'', invoice_item_suggested)],
       a_results :=
         [\<lparr>r_rel = ''invoice_2024_03.pdf'',
           r_dest = path_str ''/dl''
             [''Finance'', ''Invoices'', ''2024'', ''Invoice_2024-03-01.pdf''],
           r_ok = False, r_err = REFUSED, r_mode = ''move''\<rparr>]\<rparr>)"
proof -
  have reach: "apply_loop no_fault ''/dl'' ''move'' (start invoice_tree) [] = Inr (start invoice_tree)"
    by simp
  have cand: "status invoice_item_suggested = Candidate"
    by (simp add: invoice_item_suggested_def invoice_item_def scan_item_def)
  have appr: "approved invoice_item_suggested"
    by (simp add: invoice_item_suggested_def)
  have dd: "[''Finance'', ''Invoices'', ''2024''] =
      path_parts (if truthy (edited_folder invoice_item_suggested)
                  then edited_folder invoice_item_suggested else TOSORT)"
    by (simp add: invoice_item_suggested_def truthy_def parts_invoice_folder)
  have d: "[''Finance'', ''Invoices'', ''2024'', ''Invoice_2024-03-01.pdf''] =
      [''Finance'', ''Invoices'', ''2024''] @
      path_parts (if truthy (edited_name invoice_item_suggested)
                  then edited_name invoice_item_suggested else name invoice_item_suggested)"
    by (simp add: invoice_item_suggested_def truthy_def parts_invoice_name)
  have holds: "a_fs (start invoice_tree)
      [''Finance'', ''Invoices'', ''2024'', ''Invoice_2024-03-01.pdf''] \<noteq> None"
    by (simp add: start_def invoice_tree_def)
  have anc: "\<forall>q \<in> set (prefixes [''Finance'', ''Invoices'', ''2024'']).
      a_fs (start invoice_tree) q = Some Dir"
    by (simp add: start_def invoice_tree_def)
  from overwrite_refused [OF reach cand appr dd d holds anc, of "''invoice_2024_03.pdf''" "[]"]
  show ?thesis by (simp add: start_def)
qed

lemma copy2_success:
  assumes "copy2 flt f src dest = Inr f2"
  shows "f src \<noteq> None \<and> f2 dest = f src \<and> (\<forall>p. p \<noteq> dest \<longrightarrow> f2 p = f p)"
  using assms by (auto simp: copy2_def split: option.splits node.splits if_splits)

lemma move_success:
  assumes "move flt f src dest = Inr f2"
  shows "f src \<noteq> None \<and> f2 dest = f src \<and> \<not> prefix src dest \<and>
         (\<forall>p. \<not> prefix dest p \<longrightarrow> \<not> prefix src p \<longrightarrow> f2 p = f p)"
  using assms by (auto simp: move_def split: option.splits if_splits)

lemma apply_change_cases:
  assumes "apply_change flt f r rl dest_folder new_name md = Inr (f', ok, dest, err)"
  shows "\<exists>f1. mkdir_parents f (path_parts dest_folder) = Inr f1 \<and>
           dest = path_str r (path_parts dest_folder @ path_parts new_name) \<and>
           (if f1 (path_parts dest_folder @ path_parts new_name) \<noteq> None
            then f' = f1 \<and> \<not> ok \<and> err = REFUSED
            else (case (if md = ''copy''
                        then copy2 flt f1 (path_parts rl)
                               (path_parts dest_folder @ path_parts new_name)
                        else move flt f1 (path_parts rl)
                               (path_parts dest_folder @ path_parts new_name)) of
                    Inr f2 \<Rightarrow> f' = f2 \<and> ok \<and> err = []
                  | Inl msg \<Rightarrow> f' = f1 \<and> \<not> ok \<and> err = msg))"
  using assms
  by (auto simp: apply_change_def Let_def NEVER_OVERWRITE_def split: sum.splits if_splits)

lemma mkdir_parents_dir:
  "mkdir_parents f d = Inr f1 \<Longrightarrow> f1 d = Some Dir"
  unfolding mkdir_parents_def using mkdirs_dirs [of f "prefixes d" f1 d] by simp

lemma mkdir_parents_frame:
  "mkdir_parents f d = Inr f1 \<Longrightarrow> f p \<noteq> None \<Longrightarrow> f1 p = f p"
  unfolding mkdir_parents_def using mkdirs_frame [of f "prefixes d" f1 p] by simp

lemma mkdir_parents_new:
  "mkdir_parents f d = Inr f1 \<Longrightarrow> f p = None \<Longrightarrow> f1 p \<noteq> None \<Longrightarrow> f1 p = Some Dir \<and> prefix p d"
  unfolding mkdir_parents_def using mkdirs_new [of f "prefixes d" f1 p]
  by simp

text \<open>
  C10. \<open>apply_change\<close> creates the destination directory before it looks for the
  destination: after every call that returns, the destination directory is a directory
  of the tree; the overwrite test reads the tree that \<open>mkdir\<close> left, and a call that
  returns failure (a refusal included) leaves that tree behind, in which every path
  that existed before has kept its node (so source and destination file are unchanged)
  and every new path is a directory on the way to the destination directory.
\<close>

theorem mkdir_precedes_overwrite_check:
  "(apply_change flt f r rl dest_folder new_name md = Inr (f', ok, dest, err) \<longrightarrow>
      f' (path_parts dest_folder) = Some Dir) \<and>
   (apply_change flt f r rl dest_folder new_name md = Inr (f', False, dest, err) \<longrightarrow>
      (\<forall>p. f p \<noteq> None \<longrightarrow> f' p = f p) \<and>
      (\<forall>p. f p = None \<and> f' p \<noteq> None \<longrightarrow> f' p = Some Dir \<and> prefix p (path_parts dest_folder))) \<and>
   (mkdir_parents f (path_parts dest_folder) = Inr f1 \<and>
    f1 (path_parts dest_folder @ path_parts new_name) \<noteq> None \<longrightarrow>
      apply_change flt f r rl dest_folder new_name md =
        Inr (f1, False, path_str r (path_parts dest_folder @ path_parts new_name), REFUSED))"
proof (intro conjI impI)
  let ?dd = "path_parts dest_folder"
  let ?dest = "?dd @ path_parts new_name"
  assume a: "apply_change flt f r rl dest_folder new_name md = Inr (f', ok, dest, err)"
  from apply_change_cases [OF a] obtain f1 where
    mk: "mkdir_parents f ?dd = Inr f1"
    and cs: "if f1 ?dest \<noteq> None then f' = f1 \<and> \<not> ok \<and> err = REFUSED
             else (case (if md = ''copy'' then copy2 flt f1 (path_parts rl) ?dest
                         else move flt f1 (path_parts rl) ?dest) of
                     Inr f2 \<Rightarrow> f' = f2 \<and> ok \<and> err = []
                   | Inl msg \<Rightarrow> f' = f1 \<and> \<not> ok \<and> err = msg)"
    by blast
  have d1: "f1 ?dd = Some Dir" by (rule mkdir_parents_dir [OF mk])
  show "f' ?dd = Some Dir"
  proof (cases "f1 ?dest \<noteq> None")
    case True
    with cs d1 show ?thesis by simp
  next
    case False
    then have ne: "?dest \<noteq> ?dd" and np: "\<not> prefix ?dest ?dd" using d1 by auto
    show ?thesis
    proof (cases "md = ''copy''")
      case True
      with cs False d1 ne copy2_success [of flt f1 "path_parts rl" ?dest] show ?thesis
        by (auto split: sum.splits)
    next
      case md: False
      show ?thesis
      proof (cases "move flt f1 (path_parts rl) ?dest")
        case (Inl msg)
        with cs False md d1 show ?thesis by simp
      next
        case (Inr f2)
        from move_success [OF Inr] have "\<not> prefix (path_parts rl) ?dest"
          and fr: "\<forall>p. \<not> prefix ?dest p \<longrightarrow> \<not> prefix (path_parts rl) p \<longrightarrow> f2 p = f1 p"
          by auto
        then have "\<not> prefix (path_parts rl) ?dd"
          using prefix_order.trans [of "path_parts rl" ?dd ?dest] by auto
        with fr np have "f2 ?dd = f1 ?dd" by simp
        with cs False md Inr d1 show ?thesis by simp
      qed
    qed
  qed
next
  let ?dd = "path_parts dest_folder"
  assume a: "apply_change flt f r rl dest_folder new_name md = Inr (f', False, dest, err)"
  from apply_change_cases [OF a] obtain f1 where
    mk: "mkdir_parents f ?dd = Inr f1" and f': "f' = f1"
    by (auto split: if_splits sum.splits)
  show "\<forall>p. f p \<noteq> None \<longrightarrow> f' p = f p"
    using mkdir_parents_frame [OF mk] f' by simp
  show "\<forall>p. f p = None \<and> f' p \<noteq> None \<longrightarrow> f' p = Some Dir \<and> prefix p ?dd"
    using mkdir_parents_new [OF mk] f' by simp
next
  assume "mkdir_parents f (path_parts dest_folder) = Inr f1 \<and>
    f1 (path_parts dest_folder @ path_parts new_name) \<noteq> None"
  then show "apply_change flt f r rl dest_folder new_name md =
        Inr (f1, False, path_str r (path_parts dest_folder @ path_parts new_name), REFUSED)"
    by (simp add: apply_change_def Let_def NEVER_OVERWRITE_def)
qed

lemma parts_new_sub: "path_parts ''New/Sub'' = [''New'', ''Sub'']"
  by code_simp

lemma parts_empty: "path_parts [] = []"
  by code_simp

lemma mkdir_new_sub:
  "mkdir_parents flat_tree [''New'', ''Sub''] =
     Inr (flat_tree([''New''] \<mapsto> Dir, [''New'', ''Sub''] \<mapsto> Dir))"
  by (simp add: mkdir_parents_def flat_tree_def)


theorem mkdir_precedes_overwrite_check_witness:
  "mkdir_parents flat_tree (path_parts ''New/Sub'') =
     Inr (flat_tree([''New''] \<mapsto> Dir, [''New'', ''Sub''] \<mapsto> Dir)) \<and>
   flat_tree [''New'', ''Sub''] = None \<and>
   apply_change no_fault flat_tree ''/dl'' ''a.txt'' ''New/Sub'' [] ''move'' =
     Inr (flat_tree([''New''] \<mapsto> Dir, [''New'', ''Sub''] \<mapsto> Dir), False,
          path_str ''/dl'' [''New'', ''Sub''], REFUSED) \<and>
   (flat_tree([''New''] \<mapsto> Dir, [''New'', ''Sub''] \<mapsto> Dir)) [''New'', ''Sub''] = Some Dir \<and>
   (flat_tree([''New''] \<mapsto> Dir, [''New'', ''Sub''] \<mapsto> Dir)) [''a.txt''] =
     Some (File ''alpha'')"
proof -
  let ?f1 = "flat_tree([''New''] \<mapsto> Dir, [''New'', ''Sub''] \<mapsto> Dir)"
  have mk: "mkdir_parents flat_tree (path_parts ''New/Sub'') = Inr ?f1"
    by (simp add: parts_new_sub mkdir_new_sub)
  have ex: "?f1 (path_parts ''New/Sub'' @ path_parts []) \<noteq> None"
    by (simp add: parts_new_sub parts_empty)
  have old: "flat_tree [''a.txt''] \<noteq> None" "flat_tree [''New'', ''Sub''] = None"
    by (simp_all add: flat_tree_def)
  note inst = mkdir_precedes_overwrite_check
      [of no_fault flat_tree "''/dl''" "''a.txt''" "''New/Sub''" "[]" "''move''" ?f1 False
          "path_str ''/dl'' [''New'', ''Sub'']" REFUSED ?f1]
  from inst mk ex have run:
    "apply_change no_fault flat_tree ''/dl'' ''a.txt'' ''New/Sub'' [] ''move'' =
       Inr (?f1, False, path_str ''/dl'' [''New'', ''Sub''], REFUSED)"
    by (simp add: parts_new_sub parts_empty)
  from inst run have "?f1 (path_parts ''New/Sub'') = Some Dir"
    and "\<forall>p. flat_tree p \<noteq> None \<longrightarrow> ?f1 p = flat_tree p"
    by blast+
  with mk run old show ?thesis
    by (simp add: parts_new_sub flat_tree_def)
qed

lemma apply_item_skip:
  "\<not> eligible it \<Longrightarrow>
     apply_item flt r md st (rl, it) = Inr (st\<lparr>a_items := a_items st @ [(rl, it)]\<rparr>)"
  by (auto simp: eligible_def apply_item_def Let_def)

lemma apply_item_run:
  assumes "eligible it" and "apply_item flt r md st (rl, it) = Inr st'"
  shows "\<exists>f' ok dest err.
           apply_change flt (a_fs st) r rl
             (if truthy (edited_folder it) then edited_folder it else TOSORT)
             (if truthy (edited_name it) then edited_name it else name it) md =
             Inr (f', ok, dest, err) \<and>
           a_fs st' = f' \<and>
           a_log st' = a_log st @
             [\<lparr>l_action = ''apply'', l_mode = md, l_src = path_str r (path_parts rl),
               l_dest = dest, l_ok = ok, l_error = err\<rparr>] \<and>
           a_items st' = a_items st @
             [(rl, if ok then it\<lparr>status := Done, approved := False, done_dest := Some dest\<rparr>
                   else it)] \<and>
           a_results st' = a_results st @
             [\<lparr>r_rel = rl, r_dest = dest, r_ok = ok, r_err = err, r_mode = md\<rparr>]"
  using assms
  by (auto simp: eligible_def apply_item_def Let_def split: sum.splits)

lemma apply_item_crash:
  "apply_item flt r md st e = Inl (x, st1) \<Longrightarrow> st1 = st \<and> eligible (snd e)"
  by (auto simp: eligible_def apply_item_def Let_def split: sum.splits if_splits)

lemma apply_loop_snoc:
  "apply_loop flt r md st0 pre = Inr st \<Longrightarrow>
     apply_loop flt r md st0 (pre @ [e]) = apply_item flt r md st e"
  by (simp add: apply_loop_append split: sum.splits)

text \<open>
  C6. In any apply batch, when the loop has passed an approved candidate, the item is
  marked done exactly when the destination was free after \<open>mkdir\<close> and the copy or move
  returned the tree that the run continues with; the result and the log entry carry the
  same flag. When it is marked done, it is the old item with status done, \<open>approved\<close>
  false and \<open>done_dest\<close> the destination, and the destination holds what the source
  held; otherwise the item is as it was and the tree is the one that \<open>mkdir\<close> left.
\<close>

theorem done_only_after_success:
  assumes reach: "apply_loop flt r md st0 pre = Inr st"
    and step: "apply_loop flt r md st0 (pre @ [(rl, it)]) = Inr st'"
    and cand: "status it = Candidate" and appr: "approved it"
    and src: "src = path_parts rl"
    and dd: "dest_dir = path_parts (if truthy (edited_folder it) then edited_folder it else TOSORT)"
    and d: "dest = dest_dir @ path_parts (if truthy (edited_name it) then edited_name it else name it)"
  shows "\<exists>it' f1 x l.
           a_items st' = a_items st @ [(rl, it')] \<and>
           a_results st' = a_results st @ [x] \<and>
           a_log st' = a_log st @ [l] \<and>
           mkdir_parents (a_fs st) dest_dir = Inr f1 \<and>
           (status it' = Done \<longleftrightarrow>
              f1 dest = None \<and>
              (if md = ''copy'' then copy2 flt f1 src dest else move flt f1 src dest) =
                Inr (a_fs st')) \<and>
           r_ok x = (status it' = Done) \<and> l_ok l = (status it' = Done) \<and>
           (if status it' = Done
            then it' = it\<lparr>status := Done, approved := False,
                          done_dest := Some (path_str r dest)\<rparr> \<and>
                 f1 src \<noteq> None \<and> a_fs st' dest = f1 src
            else it' = it \<and> a_fs st' = f1)"
proof -
  let ?folder = "if truthy (edited_folder it) then edited_folder it else TOSORT"
  let ?nm = "if truthy (edited_name it) then edited_name it else name it"
  from reach step have item: "apply_item flt r md st (rl, it) = Inr st'"
    by (simp add: apply_loop_snoc)
  from cand appr have el: "eligible it" by (simp add: eligible_def)
  from apply_item_run [OF el item] obtain f' ok dst err where
    ch: "apply_change flt (a_fs st) r rl ?folder ?nm md = Inr (f', ok, dst, err)"
    and fs': "a_fs st' = f'"
    and lg: "a_log st' = a_log st @
             [\<lparr>l_action = ''apply'', l_mode = md, l_src = path_str r (path_parts rl),
               l_dest = dst, l_ok = ok, l_error = err\<rparr>]"
    and its: "a_items st' = a_items st @
             [(rl, if ok then it\<lparr>status := Done, approved := False, done_dest := Some dst\<rparr>
                   else it)]"
    and rs: "a_results st' = a_results st @
             [\<lparr>r_rel = rl, r_dest = dst, r_ok = ok, r_err = err, r_mode = md\<rparr>]"
    by blast
  from apply_change_cases [OF ch] dd d src obtain f1 where
    mk: "mkdir_parents (a_fs st) dest_dir = Inr f1"
    and dst: "dst = path_str r dest"
    and cs: "if f1 dest \<noteq> None then f' = f1 \<and> \<not> ok \<and> err = REFUSED
             else (case (if md = ''copy'' then copy2 flt f1 src dest
                         else move flt f1 src dest) of
                     Inr f2 \<Rightarrow> f' = f2 \<and> ok \<and> err = []
                   | Inl msg \<Rightarrow> f' = f1 \<and> \<not> ok \<and> err = msg)"
    by auto
  let ?it' = "if ok then it\<lparr>status := Done, approved := False, done_dest := Some dst\<rparr> else it"
  have stat: "status ?it' = Done \<longleftrightarrow> ok" using cand by simp
  have okiff: "ok \<longleftrightarrow> f1 dest = None \<and>
      (if md = ''copy'' then copy2 flt f1 src dest else move flt f1 src dest) = Inr f'"
    using cs by (auto split: sum.splits if_splits)
  have moved: "ok \<Longrightarrow> f1 src \<noteq> None \<and> f' dest = f1 src"
  proof -
    assume ok
    with okiff have op: "(if md = ''copy'' then copy2 flt f1 src dest
                          else move flt f1 src dest) = Inr f'" by simp
    show "f1 src \<noteq> None \<and> f' dest = f1 src"
    proof (cases "md = ''copy''")
      case True
      with op copy2_success [of flt f1 src dest f'] show ?thesis by simp
    next
      case False
      with op move_success [of flt f1 src dest f'] show ?thesis by simp
    qed
  qed
  have notok: "\<not> ok \<Longrightarrow> f' = f1"
    using cs by (auto split: sum.splits if_splits)
  show ?thesis
  proof (cases ok)
    case True
    with okiff fs' have op: "f1 dest = None \<and>
      (if md = ''copy'' then copy2 flt f1 src dest else move flt f1 src dest) = Inr (a_fs st')"
      by simp
    from True moved fs' have mv: "f1 src \<noteq> None \<and> a_fs st' dest = f1 src" by simp
    from True its dst have i: "a_items st' = a_items st @
        [(rl, it\<lparr>status := Done, approved := False, done_dest := Some (path_str r dest)\<rparr>)]"
      by simp
    from True rs obtain x where x: "a_results st' = a_results st @ [x]" "r_ok x" by simp
    from True lg obtain l where l: "a_log st' = a_log st @ [l]" "l_ok l" by simp
    from i x l mk op mv show ?thesis by auto
  next
    case False
    with okiff fs' have op: "\<not> (f1 dest = None \<and>
      (if md = ''copy'' then copy2 flt f1 src dest else move flt f1 src dest) = Inr (a_fs st'))"
      by simp
    from False notok fs' have same: "a_fs st' = f1" by simp
    from False its have i: "a_items st' = a_items st @ [(rl, it)]" by simp
    from False rs obtain x where x: "a_results st' = a_results st @ [x]" "\<not> r_ok x" by simp
    from False lg obtain l where l: "a_log st' = a_log st @ [l]" "\<not> l_ok l" by simp
    from i x l mk op same cand show ?thesis by auto
  qed
qed

lemma parts_invoice_rel:
  "path_parts ''invoice_2024_03.pdf'' = [''invoice_2024_03.pdf'']"
  by code_simp

lemma mkdir_ready:
  "mkdir_parents ready_tree [''Finance'', ''Invoices'', ''2024''] = Inr ready_tree"
  by (simp add: mkdir_parents_def ready_tree_def)

lemma move_ready:
  "move no_fault ready_tree [''invoice_2024_03.pdf'']
     [''Finance'', ''Invoices'', ''2024'', ''Invoice_2024-03-01.pdf''] = Inr moved_tree"
proof -
  have a: "ready_tree [''invoice_2024_03.pdf''] = Some (File ''Invoice #123 dated 2024-03-01'')"
    and b: "ready_tree [''Finance'', ''Invoices'', ''2024''] = Some Dir"
    by (simp_all add: ready_tree_def)
  show ?thesis
    by (simp add: move_def no_fault_def moved_tree_def invoice_dest_def a b fun_eq_iff)
qed

lemma invoice_move_run:
  "apply_loop no_fault ''/dl'' ''move'' (start ready_tree)
     ([] @ [(''invoice_2024_03.pdf'', invoice_item_suggested)]) = Inr invoice_moved"
proof -
  have free: "ready_tree [''Finance'', ''Invoices'', ''2024'', ''Invoice_2024-03-01.pdf''] = None"
    by (simp add: ready_tree_def)
  have ch: "apply_change no_fault ready_tree ''/dl'' ''invoice_2024_03.pdf''
              ''Finance/Invoices/2024'' ''Invoice_2024-03-01.pdf'' ''move'' =
            Inr (moved_tree, True, path_str ''/dl'' invoice_dest, [])"
    by (simp add: apply_change_def Let_def parts_invoice_folder parts_invoice_name
        parts_invoice_rel mkdir_ready free move_ready invoice_dest_def)
  have it: "status invoice_item_suggested = Candidate" "approved invoice_item_suggested"
    "edited_folder invoice_item_suggested = ''Finance/Invoices/2024''"
    "edited_name invoice_item_suggested = ''Invoice_2024-03-01.pdf''"
    by (simp_all add: invoice_item_suggested_def invoice_item_def scan_item_def)
  show ?thesis
    by (simp add: apply_item_def Let_def it truthy_def ch start_def invoice_moved_def
        invoice_item_done_def parts_invoice_rel)
qed

theorem done_only_after_success_witness:
  "apply_loop no_fault ''/dl'' ''move'' (start ready_tree)
     [(''invoice_2024_03.pdf'', invoice_item_suggested)] = Inr invoice_moved \<and>
   a_items invoice_moved = [(''invoice_2024_03.pdf'', invoice_item_done)] \<and>
   status invoice_item_done = Done \<and>
   move no_fault ready_tree [''invoice_2024_03.pdf''] invoice_dest = Inr (a_fs invoice_moved) \<and>
   a_fs invoice_moved invoice_dest = Some (File ''Invoice #123 dated 2024-03-01'')"
proof -
  have reach: "apply_loop no_fault ''/dl'' ''move'' (start ready_tree) [] = Inr (start ready_tree)"
    by simp
  have cand: "status invoice_item_suggested = Candidate"
    by (simp add: invoice_item_suggested_def invoice_item_def scan_item_def)
  have appr: "approved invoice_item_suggested"
    by (simp add: invoice_item_suggested_def)
  have src: "[''invoice_2024_03.pdf''] = path_parts ''invoice_2024_03.pdf''"
    by (simp add: parts_invoice_rel)
  have dd: "[''Finance'', ''Invoices'', ''2024''] =
      path_parts (if truthy (edited_folder invoice_item_suggested)
                  then edited_folder invoice_item_suggested else TOSORT)"
    by (simp add: invoice_item_suggested_def truthy_def parts_invoice_folder)
  have d: "invoice_dest =
      [''Finance'', ''Invoices'', ''2024''] @
      path_parts (if truthy (edited_name invoice_item_suggested)
                  then edited_name invoice_item_suggested else name invoice_item_suggested)"
    by (simp add: invoice_item_suggested_def truthy_def parts_invoice_name invoice_dest_def)
  have dn: "status invoice_item_done = Done"
    by (simp add: invoice_item_done_def)
  from done_only_after_success [OF reach invoice_move_run cand appr src dd d]
  obtain it' f1 where
    i: "a_items invoice_moved = a_items (start ready_tree) @ [(''invoice_2024_03.pdf'', it')]"
    and mk: "mkdir_parents (a_fs (start ready_tree)) [''Finance'', ''Invoices'', ''2024''] = Inr f1"
    and iff: "status it' = Done \<longleftrightarrow>
              f1 invoice_dest = None \<and>
              (if ''move'' = ''copy''
               then copy2 no_fault f1 [''invoice_2024_03.pdf''] invoice_dest
               else move no_fault f1 [''invoice_2024_03.pdf''] invoice_dest) =
                Inr (a_fs invoice_moved)"
    and fin: "if status it' = Done
              then it' = invoice_item_suggested\<lparr>status := Done, approved := False,
                          done_dest := Some (path_str ''/dl'' invoice_dest)\<rparr> \<and>
                   f1 [''invoice_2024_03.pdf''] \<noteq> None \<and>
                   a_fs invoice_moved invoice_dest = f1 [''invoice_2024_03.pdf'']
              else it' = invoice_item_suggested \<and> a_fs invoice_moved = f1"
    by blast
  from i have it': "it' = invoice_item_done"
    by (simp add: invoice_moved_def start_def)
  from mk have f1: "f1 = ready_tree"
    by (simp add: start_def mkdir_ready)
  from iff it' dn f1 have mv:
    "move no_fault ready_tree [''invoice_2024_03.pdf''] invoice_dest = Inr (a_fs invoice_moved)"
    by simp
  from fin it' dn f1 have at:
    "a_fs invoice_moved invoice_dest = Some (File ''Invoice #123 dated 2024-03-01'')"
    by (simp add: ready_tree_def)
  from invoice_move_run mv at dn show ?thesis
    by (simp add: invoice_moved_def)
qed

lemma apply_loop_trace:
  assumes "apply_loop flt r md st xs = Inr st'"
  shows "\<exists>rs ls ys.
           a_results st' = a_results st @ rs \<and>
           a_log st' = a_log st @ ls \<and>
           a_items st' = a_items st @ ys \<and>
           map r_rel rs = map fst (filter (\<lambda>e. eligible (snd e)) xs) \<and>
           map l_src ls = map (\<lambda>e. path_str r (path_parts (fst e))) (filter (\<lambda>e. eligible (snd e)) xs) \<and>
           list_all2 (\<lambda>x y. fst y = fst x \<and> (\<not> eligible (snd x) \<longrightarrow> y = x)) xs ys"
  using assms
proof (induction xs arbitrary: st)
  case Nil
  then show ?case by simp
next
  case (Cons e es)
  obtain rl it where e: "e = (rl, it)" by (cases e)
  from Cons.prems obtain st1 where
    one: "apply_item flt r md st e = Inr st1" and rest: "apply_loop flt r md st1 es = Inr st'"
    by (auto split: sum.splits)
  from Cons.IH [OF rest] obtain rs ls ys where
    ih: "a_results st' = a_results st1 @ rs" "a_log st' = a_log st1 @ ls"
      "a_items st' = a_items st1 @ ys"
      "map r_rel rs = map fst (filter (\<lambda>e. eligible (snd e)) es)"
      "map l_src ls = map (\<lambda>e. path_str r (path_parts (fst e))) (filter (\<lambda>e. eligible (snd e)) es)"
      "list_all2 (\<lambda>x y. fst y = fst x \<and> (\<not> eligible (snd x) \<longrightarrow> y = x)) es ys"
    by blast
  show ?case
  proof (cases "eligible it")
    case True
    from apply_item_run [OF True one [unfolded e]] obtain x l it' where
      "a_results st1 = a_results st @ [x]" "r_rel x = rl"
      "a_log st1 = a_log st @ [l]" "l_src l = path_str r (path_parts rl)"
      "a_items st1 = a_items st @ [(rl, it')]"
      by auto
    with ih e True show ?thesis
      apply (intro exI [of _ "x # rs"] exI [of _ "l # ls"] exI [of _ "(rl, it') # ys"])
      apply simp
      done
  next
    case False
    with one e have "st1 = st\<lparr>a_items := a_items st @ [(rl, it)]\<rparr>"
      by (simp add: apply_item_skip)
    with ih e False show ?thesis
      apply (intro exI [of _ rs] exI [of _ ls] exI [of _ "(rl, it) # ys"])
      apply simp
      done
  qed
qed

lemma apply_loop_trace_crash:
  assumes "apply_loop flt r md st xs = Inl (x, st')"
  shows "\<exists>ls. a_log st' = a_log st @ ls \<and>
           prefix (map l_src ls)
             (map (\<lambda>e. path_str r (path_parts (fst e))) (filter (\<lambda>e. eligible (snd e)) xs))"
  using assms
proof (induction xs arbitrary: st)
  case Nil
  then show ?case by simp
next
  case (Cons e es)
  obtain rl it where e: "e = (rl, it)" by (cases e)
  show ?case
  proof (cases "apply_item flt r md st e")
    case (Inl y)
    with Cons.prems have "y = (x, st')" by simp
    with Inl apply_item_crash [of flt r md st e x st'] have "st' = st" by simp
    then show ?thesis by simp
  next
    case (Inr st1)
    with Cons.prems have rest: "apply_loop flt r md st1 es = Inl (x, st')" by simp
    from Cons.IH [OF rest] obtain ls where
      ih: "a_log st' = a_log st1 @ ls"
        "prefix (map l_src ls)
           (map (\<lambda>e. path_str r (path_parts (fst e))) (filter (\<lambda>e. eligible (snd e)) es))"
      by blast
    show ?thesis
    proof (cases "eligible it")
      case True
      from apply_item_run [OF True Inr [unfolded e]] obtain l where
        "a_log st1 = a_log st @ [l]" "l_src l = path_str r (path_parts rl)"
        by auto
      with ih e True show ?thesis
        apply (intro exI [of _ "l # ls"])
        apply simp
        done
    next
      case False
      with Inr e have "st1 = st\<lparr>a_items := a_items st @ [(rl, it)]\<rparr>"
        by (simp add: apply_item_skip)
      with ih e False show ?thesis
        apply (intro exI [of _ ls])
        apply simp
        done
    qed
  qed
qed

lemma bulk_set_status_done:
  "list_all2 (\<lambda>x y. fst y = fst x \<and> (status (snd x) = Done \<longrightarrow> y = x))
     (items s) (items (bulk_set_status new_status sels s))"
  by (auto simp: bulk_set_status_def Let_def list_all2_map2 list_all2_same split: prod.splits)

text \<open>
  C5. A run of \<open>apply\<close> attempts exactly the items that are candidates and approved:
  the new entries of the audit log are for those items, in order (all of them when the
  run returns, the first of them when \<open>mkdir\<close> raises, in which case the registry is
  not changed at all); the results are for those items; and every other item, so every
  item whose status is done or never, is in the registry afterwards as it was before.
  \<open>bulk_set_status\<close> leaves every item whose status is done as it was.
\<close>

theorem done_and_never_untouched:
  "(apply_approved flt w = (w', out) \<longrightarrow>
      (\<exists>new. w_log w' = w_log w @ new \<and>
         prefix (map l_src new)
           (map (\<lambda>e. path_str (root (w_state w)) (path_parts (fst e)))
              (filter (\<lambda>e. eligible (snd e)) (items (w_state w))))) \<and>
      (case out of
         Inl x \<Rightarrow> w_state w' = w_state w
       | Inr res \<Rightarrow>
           map r_rel res = map fst (filter (\<lambda>e. eligible (snd e)) (items (w_state w))) \<and>
           list_all2 (\<lambda>x y. fst y = fst x \<and>
                        (status (snd x) \<noteq> Candidate \<or> \<not> approved (snd x) \<longrightarrow> y = x))
             (items (w_state w)) (items (w_state w')))) \<and>
   list_all2 (\<lambda>x y. fst y = fst x \<and> (status (snd x) = Done \<longrightarrow> y = x))
     (items s) (items (bulk_set_status new_status sels s))"
proof (intro conjI impI)
  let ?st0 = "\<lparr>a_fs = w_fs w, a_log = w_log w, a_items = [], a_results = []\<rparr>"
  let ?run = "apply_loop flt (root (w_state w)) (mode (w_state w)) ?st0 (items (w_state w))"
  assume a: "apply_approved flt w = (w', out)"
  show "\<exists>new. w_log w' = w_log w @ new \<and>
         prefix (map l_src new)
           (map (\<lambda>e. path_str (root (w_state w)) (path_parts (fst e)))
              (filter (\<lambda>e. eligible (snd e)) (items (w_state w))))"
  proof (cases ?run)
    case (Inl y)
    obtain x st where y: "y = (x, st)" by (cases y)
    from a Inl y have "w_log w' = a_log st"
      by (auto simp: apply_approved_def Let_def)
    with apply_loop_trace_crash [OF Inl [unfolded y]] show ?thesis by auto
  next
    case (Inr st)
    from a Inr have "w_log w' = a_log st"
      by (auto simp: apply_approved_def Let_def)
    with apply_loop_trace [OF Inr] show ?thesis
      by (metis apply_state.select_convs(2) prefix_order.eq_refl)
  qed
  show "case out of
         Inl x \<Rightarrow> w_state w' = w_state w
       | Inr res \<Rightarrow>
           map r_rel res = map fst (filter (\<lambda>e. eligible (snd e)) (items (w_state w))) \<and>
           list_all2 (\<lambda>x y. fst y = fst x \<and>
                        (status (snd x) \<noteq> Candidate \<or> \<not> approved (snd x) \<longrightarrow> y = x))
             (items (w_state w)) (items (w_state w'))"
  proof (cases ?run)
    case (Inl y)
    obtain x st where y: "y = (x, st)" by (cases y)
    from a Inl y show ?thesis
      by (auto simp: apply_approved_def Let_def)
  next
    case (Inr st)
    from a Inr have o: "out = Inr (a_results st)" and i: "items (w_state w') = a_items st"
      by (auto simp: apply_approved_def Let_def)
    from apply_loop_trace [OF Inr] obtain rs ys where
      "a_results st = rs" "a_items st = ys"
      "map r_rel rs = map fst (filter (\<lambda>e. eligible (snd e)) (items (w_state w)))"
      "list_all2 (\<lambda>x y. fst y = fst x \<and> (\<not> eligible (snd x) \<longrightarrow> y = x)) (items (w_state w)) ys"
      by auto
    with o i show ?thesis by (simp add: eligible_def)
  qed
next
  show "list_all2 (\<lambda>x y. fst y = fst x \<and> (status (snd x) = Done \<longrightarrow> y = x))
     (items s) (items (bulk_set_status new_status sels s))"
    by (rule bulk_set_status_done)
qed


lemma mixed_run:
  "apply_approved no_fault mixed_world =
     (mixed_world\<lparr>w_log := [refusal_entry]\<rparr>, Inr [refusal_result])"
proof -
  let ?st0 = "\<lparr>a_fs = invoice_tree, a_log = [], a_items = [], a_results = []\<rparr>"
  have s1: "apply_item no_fault ''/dl'' ''move'' ?st0 (''old.pdf'', old_item) =
              Inr \<lparr>a_fs = invoice_tree, a_log = [], a_items = [(''old.pdf'', old_item)],
                   a_results = []\<rparr>"
    by (simp add: apply_item_def Let_def old_item_def scan_item_def)
  let ?st1 = "\<lparr>a_fs = invoice_tree, a_log = [], a_items = [(''old.pdf'', old_item)],
                a_results = []\<rparr>"
  let ?st2 = "\<lparr>a_fs = invoice_tree, a_log = [],
                a_items = [(''old.pdf'', old_item), (''keep.txt'', kept_item)],
                a_results = []\<rparr>"
  have s2: "apply_item no_fault ''/dl'' ''move'' ?st1 (''keep.txt'', kept_item) = Inr ?st2"
    by (simp add: apply_item_def Let_def kept_item_def scan_item_def)
  have cand: "status invoice_item_suggested = Candidate"
    by (simp add: invoice_item_suggested_def invoice_item_def scan_item_def)
  have appr: "approved invoice_item_suggested"
    by (simp add: invoice_item_suggested_def)
  have dd: "[''Finance'', ''Invoices'', ''2024''] =
      path_parts (if truthy (edited_folder invoice_item_suggested)
                  then edited_folder invoice_item_suggested else TOSORT)"
    by (simp add: invoice_item_suggested_def truthy_def parts_invoice_folder)
  have d: "invoice_dest =
      [''Finance'', ''Invoices'', ''2024''] @
      path_parts (if truthy (edited_name invoice_item_suggested)
                  then edited_name invoice_item_suggested else name invoice_item_suggested)"
    by (simp add: invoice_item_suggested_def truthy_def parts_invoice_name invoice_dest_def)
  have s3: "apply_item no_fault ''/dl'' ''move'' ?st2
              (''invoice_2024_03.pdf'', invoice_item_suggested) =
            Inr \<lparr>a_fs = invoice_tree, a_log = [refusal_entry], a_items = mixed_items,
                 a_results = [refusal_result]\<rparr>"
    using apply_item_refused [OF cand appr dd d, of ?st2
        no_fault "''/dl''" "''move''" "''invoice_2024_03.pdf''"]
    by (simp add: invoice_tree_def invoice_dest_def refusal_entry_def refusal_result_def
        mixed_items_def parts_invoice_rel)
  show ?thesis
    by (simp add: apply_approved_def Let_def mixed_world_def registry_def mixed_items_def
        s1 s2 s3 [unfolded mixed_items_def])
qed

theorem done_and_never_untouched_witness:
  "apply_approved no_fault mixed_world =
     (mixed_world\<lparr>w_log := [refusal_entry]\<rparr>, Inr [refusal_result]) \<and>
   filter (\<lambda>e. eligible (snd e)) mixed_items =
     [(''invoice_2024_03.pdf'', invoice_item_suggested)] \<and>
   take 2 (items (w_state (mixed_world\<lparr>w_log := [refusal_entry]\<rparr>))) =
     [(''old.pdf'', old_item), (''keep.txt'', kept_item)] \<and>
   map (status \<circ> snd)
     (items (bulk_set_status ''candidate''
        [''old.pdf'', ''keep.txt'', ''invoice_2024_03.pdf''] (registry mixed_items))) =
     [Done, Candidate, Candidate] \<and>
   hd (items (bulk_set_status ''candidate''
        [''old.pdf'', ''keep.txt'', ''invoice_2024_03.pdf''] (registry mixed_items))) =
     (''old.pdf'', old_item)"
proof -
  have el: "filter (\<lambda>e. eligible (snd e)) mixed_items =
     [(''invoice_2024_03.pdf'', invoice_item_suggested)]"
    by (simp add: mixed_items_def eligible_def old_item_def kept_item_def scan_item_def
        invoice_item_suggested_def invoice_item_def)
  have st: "status old_item = Done" "status kept_item = Never"
    by (simp_all add: old_item_def kept_item_def)
  have bs: "map (status \<circ> snd)
     (items (bulk_set_status ''candidate''
        [''old.pdf'', ''keep.txt'', ''invoice_2024_03.pdf''] (registry mixed_items))) =
     [Done, Candidate, Candidate]"
    by (simp add: bulk_set_status_def Let_def registry_def mixed_items_def old_item_def
        kept_item_def scan_item_def invoice_item_suggested_def invoice_item_def)
  note inst = done_and_never_untouched
      [of no_fault mixed_world "mixed_world\<lparr>w_log := [refusal_entry]\<rparr>" "Inr [refusal_result]"
          "registry mixed_items" "''candidate''"
          "[''old.pdf'', ''keep.txt'', ''invoice_2024_03.pdf'']"]
  from inst mixed_run have
    a: "list_all2 (\<lambda>x y. fst y = fst x \<and>
                        (status (snd x) \<noteq> Candidate \<or> \<not> approved (snd x) \<longrightarrow> y = x))
          (items (w_state mixed_world)) (items (w_state (mixed_world\<lparr>w_log := [refusal_entry]\<rparr>)))"
    and b: "list_all2 (\<lambda>x y. fst y = fst x \<and> (status (snd x) = Done \<longrightarrow> y = x))
     (items (registry mixed_items)) (items (bulk_set_status ''candidate''
        [''old.pdf'', ''keep.txt'', ''invoice_2024_03.pdf''] (registry mixed_items)))"
    by simp_all
  from a st have t: "take 2 (items (w_state (mixed_world\<lparr>w_log := [refusal_entry]\<rparr>))) =
     [(''old.pdf'', old_item), (''keep.txt'', kept_item)]"
    by (simp add: mixed_world_def registry_def mixed_items_def)
  from b st have h: "hd (items (bulk_set_status ''candidate''
        [''old.pdf'', ''keep.txt'', ''invoice_2024_03.pdf''] (registry mixed_items))) =
     (''old.pdf'', old_item)"
    by (auto simp: registry_def mixed_items_def list_all2_Cons1)
  from mixed_run el t bs h show ?thesis by simp
qed

section \<open>The extension of the suggested name\<close>

lemma endswith_append: "endswith (ws @ ex) ex"
  by (simp add: endswith_def)












section \<open>Properties of \<open>extract_preview\<close>\<close>

lemma if_returns:
  "(c \<Longrightarrow> \<exists>v. a = Inr v) \<Longrightarrow> (\<not> c \<Longrightarrow> \<exists>v. b = Inr v) \<Longrightarrow> \<exists>v. (if c then a else b) = Inr v"
  by auto

lemma try_except_returns:
  "r \<noteq> Inl BaseExc \<Longrightarrow> \<exists>v. try_except r body handler = Inr v"
  by (auto simp: try_except_def split: sum.splits failure.splits)

lemma try_except_note:
  "try_except (Inl (Exc msg)) body handler = Inr (handler msg)"
  by (simp add: try_except_def)

lemma pdf_parts_failure:
  "pdf_parts parts pgs = Inl x \<Longrightarrow> Inl x \<in> set pgs"
  by (induction parts pgs rule: pdf_parts.induct) (auto simp: Let_def split: sum.splits if_splits)

lemma xlsx_text_failure:
  "xlsx_text L wb = Inl x \<Longrightarrow> snd wb = Inl x"
  by (auto simp: xlsx_text_def Let_def split: sum.splits if_splits)

lemma stat_info_returns:
  assumes "only_exceptions E p"
  shows "\<exists>info. stat_info E p = Inr info \<and> pv_notes info = []"
proof (cases "e_stat E p")
  case (Inl x)
  with assms have "x \<noteq> BaseExc" by (simp add: only_exceptions_def)
  with Inl show ?thesis by (cases x) (simp_all add: stat_info_def)
next
  case (Inr v)
  obtain sz t where v: "v = (sz, t)" by (cases v)
  with Inr assms have "e_isotime E t \<noteq> Inl BaseExc" by (simp add: only_exceptions_def)
  with Inr v show ?thesis
    by (auto simp: stat_info_def try_except_def Let_def split: sum.splits failure.splits)
qed

lemma extract_branch_returns:
  assumes "only_exceptions E p"
  shows "\<exists>info'. extract_branch L E p ex info = Inr info'"
proof -
  from assms have a: "sha256_file E p 2000000 \<noteq> Inl BaseExc"
    by (auto simp: only_exceptions_def sha256_file_def split: sum.splits)
  from assms have b: "e_read_text E p \<noteq> Inl BaseExc" "e_docx E p \<noteq> Inl BaseExc"
    "e_image E p \<noteq> Inl BaseExc"
    by (simp_all add: only_exceptions_def)
  have c: "(case e_xlsx E p of Inl x \<Rightarrow> Inl x | Inr wb \<Rightarrow> xlsx_text L wb) \<noteq> Inl BaseExc"
  proof (cases "e_xlsx E p")
    case (Inl x)
    with assms show ?thesis by (simp add: only_exceptions_def)
  next
    case (Inr wb)
    with assms have "snd wb \<noteq> Inl BaseExc"
      by (cases wb) (simp add: only_exceptions_def)
    with Inr xlsx_text_failure [of L wb BaseExc] show ?thesis by auto
  qed
  have d: "(case e_pdf E p of Inl x \<Rightarrow> Inl x | Inr pgs \<Rightarrow> pdf_parts [] (take 3 pgs)) \<noteq> Inl BaseExc"
  proof (cases "e_pdf E p")
    case (Inl x)
    with assms show ?thesis by (simp add: only_exceptions_def)
  next
    case (Inr pgs)
    with assms have "Inl BaseExc \<notin> set (take 3 pgs)"
      by (simp add: only_exceptions_def)
    with Inr pdf_parts_failure [of "[]" "take 3 pgs" BaseExc] show ?thesis by auto
  qed
  show ?thesis
    unfolding extract_branch_def
    by (rule if_returns try_except_returns a b c d exI refl)+
qed


lemma branch_binary:
  "ex \<in> set [''.exe'', ''.msi'', ''.dll''] \<Longrightarrow> sha256_file E p 2000000 = Inl (Exc msg) \<Longrightarrow>
     extract_branch L E p ex info =
       Inr (info\<lparr>pv_kind := ''binary'', pv_notes := ''hash failed: '' @ msg\<rparr>)"
  by (simp add: extract_branch_def try_except_def del: set_simps)

lemma branch_text:
  "ex \<in> set [''.txt'', ''.md'', ''.log'', ''.csv''] \<Longrightarrow> e_read_text E p = Inl (Exc msg) \<Longrightarrow>
     extract_branch L E p ex info =
       Inr (info\<lparr>pv_kind := ''text'', pv_notes := ''read failed: '' @ msg\<rparr>)"
  apply (simp only: set_simps insert_iff empty_iff)
  apply (elim disjE)
     apply (simp_all add: extract_branch_def try_except_def)
  done

lemma branch_json:
  "ex = ''.json'' \<Longrightarrow> e_read_text E p = Inl (Exc msg) \<Longrightarrow>
     extract_branch L E p ex info =
       Inr (info\<lparr>pv_kind := ''json'', pv_notes := ''read failed: '' @ msg\<rparr>)"
  by (simp add: extract_branch_def try_except_def)

lemma branch_docx:
  "ex = ''.docx'' \<Longrightarrow> e_docx E p = Inl (Exc msg) \<Longrightarrow>
     extract_branch L E p ex info =
       Inr (info\<lparr>pv_kind := ''docx'', pv_notes := ''docx parse failed: '' @ msg\<rparr>)"
  by (simp add: extract_branch_def try_except_def)

lemma branch_xlsx:
  "ex \<in> set [''.xlsx'', ''.xlsm''] \<Longrightarrow>
   (case e_xlsx E p of Inl x \<Rightarrow> Inl x | Inr wb \<Rightarrow> xlsx_text L wb) = Inl (Exc msg) \<Longrightarrow>
     extract_branch L E p ex info =
       Inr (info\<lparr>pv_kind := ''xlsx'', pv_notes := ''xlsx parse failed: '' @ msg\<rparr>)"
  apply (simp only: set_simps insert_iff empty_iff)
  apply (elim disjE)
   apply (simp_all add: extract_branch_def try_except_def)
  done

lemma branch_pdf:
  "ex = ''.pdf'' \<Longrightarrow>
   (case e_pdf E p of Inl x \<Rightarrow> Inl x | Inr pgs \<Rightarrow> pdf_parts [] (take 3 pgs)) = Inl (Exc msg) \<Longrightarrow>
     extract_branch L E p ex info =
       Inr (info\<lparr>pv_kind := ''pdf'', pv_notes := ''pdf parse failed: '' @ msg\<rparr>)"
  by (simp add: extract_branch_def try_except_def)

lemma branch_image:
  "ex \<in> set [''.jpg'', ''.jpeg'', ''.png'', ''.webp''] \<Longrightarrow> e_image E p = Inl (Exc msg) \<Longrightarrow>
     extract_branch L E p ex info = Inr (info\<lparr>pv_kind := ''image''\<rparr>)"
  apply (simp only: set_simps insert_iff empty_iff)
  apply (elim disjE)
     apply (simp_all add: extract_branch_def try_except_def)
  done

lemma branch_svg:
  "ex = ''.svg'' \<Longrightarrow> e_read_text E p = Inl (Exc msg) \<Longrightarrow>
     extract_branch L E p ex info =
       Inr (info\<lparr>pv_kind := ''svg'', pv_notes := ''svg read failed: '' @ msg\<rparr>)"
  by (simp add: extract_branch_def try_except_def)

text \<open>
  C9, as the code has it. When the file operations on a path raise nothing but
  instances of \<open>Exception\<close>, \<open>extract_preview\<close> returns a result for that path. A failure
  of hashing, of reading the text, or of the docx, xlsx or pdf decoder is written to
  \<open>notes\<close> with the prefix of its branch. A failure of \<open>Image.open\<close> is not: its handler
  is \<open>pass\<close>, as is the handler around \<open>stat\<close>, and \<open>notes\<close> stays empty.
\<close>

theorem extract_preview_returns:
  assumes "only_exceptions E p"
  shows "\<exists>info. extract_preview L E p = Inr info \<and>
     (\<forall>msg. ext_of p \<in> set [''.exe'', ''.msi'', ''.dll''] \<and>
            sha256_file E p 2000000 = Inl (Exc msg) \<longrightarrow>
            pv_notes info = ''hash failed: '' @ msg) \<and>
     (\<forall>msg. (ext_of p \<in> set [''.txt'', ''.md'', ''.log'', ''.csv''] \<or> ext_of p = ''.json'') \<and>
            e_read_text E p = Inl (Exc msg) \<longrightarrow>
            pv_notes info = ''read failed: '' @ msg) \<and>
     (\<forall>msg. ext_of p = ''.docx'' \<and> e_docx E p = Inl (Exc msg) \<longrightarrow>
            pv_notes info = ''docx parse failed: '' @ msg) \<and>
     (\<forall>msg. ext_of p \<in> set [''.xlsx'', ''.xlsm''] \<and>
            (case e_xlsx E p of Inl x \<Rightarrow> Inl x | Inr wb \<Rightarrow> xlsx_text L wb) = Inl (Exc msg) \<longrightarrow>
            pv_notes info = ''xlsx parse failed: '' @ msg) \<and>
     (\<forall>msg. ext_of p = ''.pdf'' \<and>
            (case e_pdf E p of Inl x \<Rightarrow> Inl x | Inr pgs \<Rightarrow> pdf_parts [] (take 3 pgs)) =
              Inl (Exc msg) \<longrightarrow>
            pv_notes info = ''pdf parse failed: '' @ msg) \<and>
     (\<forall>msg. ext_of p = ''.svg'' \<and> e_read_text E p = Inl (Exc msg) \<longrightarrow>
            pv_notes info = ''svg read failed: '' @ msg) \<and>
     (\<forall>msg. ext_of p \<in> set [''.jpg'', ''.jpeg'', ''.png'', ''.webp''] \<and>
            e_image E p = Inl (Exc msg) \<longrightarrow>
            pv_notes info = [])"
proof -
  from stat_info_returns [OF assms] obtain info0 where
    st: "stat_info E p = Inr info0" and n0: "pv_notes info0 = []"
    by blast
  from extract_branch_returns [OF assms] obtain info where
    br: "extract_branch L E p (ext_of p) info0 = Inr info"
    by blast
  from st br have run: "extract_preview L E p = Inr info"
    by (simp add: extract_preview_def Let_def)
  have 1: "pv_notes info = ''hash failed: '' @ msg"
    if "ext_of p \<in> set [''.exe'', ''.msi'', ''.dll'']"
      and "sha256_file E p 2000000 = Inl (Exc msg)" for msg
    using branch_binary [OF that, of L info0] br by simp
  have 2: "pv_notes info = ''read failed: '' @ msg"
    if "ext_of p \<in> set [''.txt'', ''.md'', ''.log'', ''.csv'']"
      and "e_read_text E p = Inl (Exc msg)" for msg
    using branch_text [OF that, of L info0] br by simp
  have 8: "pv_notes info = ''read failed: '' @ msg"
    if "ext_of p = ''.json''" and "e_read_text E p = Inl (Exc msg)" for msg
    using branch_json [OF that, of L info0] br by simp
  have 3: "pv_notes info = ''docx parse failed: '' @ msg"
    if "ext_of p = ''.docx''" and "e_docx E p = Inl (Exc msg)" for msg
    using branch_docx [OF that, of L info0] br by simp
  have 4: "pv_notes info = ''xlsx parse failed: '' @ msg"
    if "ext_of p \<in> set [''.xlsx'', ''.xlsm'']"
      and "(case e_xlsx E p of Inl x \<Rightarrow> Inl x | Inr wb \<Rightarrow> xlsx_text L wb) = Inl (Exc msg)"
    for msg
    using branch_xlsx [OF that, of info0] br by simp
  have 5: "pv_notes info = ''pdf parse failed: '' @ msg"
    if "ext_of p = ''.pdf''"
      and "(case e_pdf E p of Inl x \<Rightarrow> Inl x | Inr pgs \<Rightarrow> pdf_parts [] (take 3 pgs)) =
             Inl (Exc msg)" for msg
    using branch_pdf [OF that, of L info0] br by simp
  have 6: "pv_notes info = ''svg read failed: '' @ msg"
    if "ext_of p = ''.svg''" and "e_read_text E p = Inl (Exc msg)" for msg
    using branch_svg [OF that, of L info0] br by simp
  have 7: "pv_notes info = []"
    if "ext_of p \<in> set [''.jpg'', ''.jpeg'', ''.png'', ''.webp'']"
      and "e_image E p = Inl (Exc msg)" for msg
    using branch_image [OF that, of L info0] br n0 by simp
  show ?thesis
    apply (rule exI [of _ info])
    apply (intro conjI allI impI)
           apply (rule run)
          apply (erule conjE, erule (1) 1)
         apply (erule conjE, erule disjE, erule (1) 2, erule (1) 8)
        apply (erule conjE, erule (1) 3)
       apply (erule conjE, erule (1) 4)
      apply (erule conjE, erule (1) 5)
     apply (erule conjE, erule (1) 6)
    apply (erule conjE, erule (1) 7)
    done
qed


theorem extract_preview_returns_witness:
  "only_exceptions env_missing [''report.docx''] \<and>
   e_docx env_missing [''report.docx''] = Inl (Exc ''missing'') \<and>
   extract_preview (lib_reply JNull) env_missing [''report.docx''] =
     Inr \<lparr>pv_kind = ''docx'', pv_text = [], pv_notes = ''docx parse failed: missing'',
          pv_size = None, pv_mtime = None, pv_hash = None\<rparr>"
proof -
  have h: "only_exceptions env_missing [''report.docx'']"
    by (simp add: only_exceptions_def env_missing_def)
  have e: "ext_of [''report.docx''] = ''.docx''"
    by code_simp
  have f: "e_docx env_missing [''report.docx''] = Inl (Exc ''missing'')"
    by (simp add: env_missing_def)
  from extract_preview_returns [OF h, of "lib_reply JNull"] e f obtain info where
    run: "extract_preview (lib_reply JNull) env_missing [''report.docx''] = Inr info"
    and nt: "pv_notes info = ''docx parse failed: '' @ ''missing''"
    by blast
  have v: "extract_preview (lib_reply JNull) env_missing [''report.docx''] =
     Inr \<lparr>pv_kind = ''docx'', pv_text = [], pv_notes = ''docx parse failed: missing'',
          pv_size = None, pv_mtime = None, pv_hash = None\<rparr>"
    by code_simp
  from h f run nt v show ?thesis by simp
qed

text \<open>
  C9 as stated fails on the code: for an image that cannot be decoded the result carries
  no note of the failure.
\<close>

theorem image_failure_leaves_no_note:
  "e_image env_missing [''pic.png''] = Inl (Exc ''missing'') \<and>
   extract_preview (lib_reply JNull) env_missing [''pic.png''] =
     Inr \<lparr>pv_kind = ''image'', pv_text = [], pv_notes = [],
          pv_size = None, pv_mtime = None, pv_hash = None\<rparr>"
  by code_simp

end
